theory Spec2Isabelle
  imports Main "HOL-Library.Sublist"
begin

section \<open>Strings: the parts of Python's \<open>str\<close> and \<open>re\<close> that \<open>main.py\<close> uses\<close>

text \<open>
  A Python \<open>str\<close> is modelled as a \<^typ>\<open>string\<close>, one \<^typ>\<open>char\<close> per code point
  (code points below 256). \<open>is_space\<close> is \<open>str.isspace\<close> on these code points: the
  ASCII white space 0x09 to 0x0D, 0x1C to 0x1F and 0x20, the next line character 0x85
  and the no-break space 0xA0. It is also what the regular expression classes \<open>\s\<close>
  and \<open>\S\<close> test, and what \<open>str.strip()\<close> removes.
\<close>

definition is_space :: "char \<Rightarrow> bool" where
  "is_space c \<longleftrightarrow> c \<in> set [CHR 0x09, CHR 0x0A, CHR 0x0B, CHR 0x0C, CHR 0x0D,
                            CHR 0x1C, CHR 0x1D, CHR 0x1E, CHR 0x1F, CHR 0x20,
                            CHR 0x85, CHR 0xA0]"

text \<open>
  \<open>str.replace(old, new)\<close>: the text is scanned from the left, every occurrence of
  \<open>old\<close> that does not overlap an earlier one is replaced. With an empty \<open>old\<close> Python
  puts \<open>new\<close> before every character and at the end. The first argument of the
  scanner counts the characters of the current occurrence that are still to be dropped.
\<close>

fun replace_scan :: "nat \<Rightarrow> string \<Rightarrow> string \<Rightarrow> string \<Rightarrow> string" where
  "replace_scan k old new [] = []"
| "replace_scan (Suc k) old new (c # cs) = replace_scan k old new cs"
| "replace_scan 0 old new (c # cs) =
     (if prefix old (c # cs) then new @ replace_scan (length old - 1) old new cs
      else c # replace_scan 0 old new cs)"

definition str_replace :: "string \<Rightarrow> string \<Rightarrow> string \<Rightarrow> string" where
  "str_replace old new s =
     (if old = [] then concat (map (\<lambda>c. new @ [c]) s) @ new
      else replace_scan 0 old new s)"

text \<open>
  \<open>re.sub(pattern, '', text)\<close> for a pattern that never matches the empty string:
  at each position the pattern is tried; a match of \<open>n\<close> characters is deleted and the
  scan goes on behind it, otherwise the character is kept. \<open>mt\<close> gives the length of
  the match at the head of its argument.
\<close>

fun re_delete :: "nat \<Rightarrow> (string \<Rightarrow> nat option) \<Rightarrow> string \<Rightarrow> string" where
  "re_delete k mt [] = []"
| "re_delete (Suc k) mt (c # cs) = re_delete k mt cs"
| "re_delete 0 mt (c # cs) =
     (case mt (c # cs) of
        Some n \<Rightarrow> re_delete (n - 1) mt cs
      | None \<Rightarrow> c # re_delete 0 mt cs)"

text \<open>A literal followed by \<open>\S+\<close>: the literal, then the longest non-empty run of
  characters that are not white space.\<close>

definition match_lit_nonspace :: "string \<Rightarrow> string \<Rightarrow> nat option" where
  "match_lit_nonspace lit r =
     (let run = takeWhile (\<lambda>c. \<not> is_space c) (drop (length lit) r)
      in if prefix lit r \<and> run \<noteq> [] then Some (length lit + length run) else None)"

text \<open>\<open>https?://\S+\<close>: the optional \<open>s\<close> is greedy, and is given up when the rest
  does not match with it.\<close>

definition url_pattern :: "string \<Rightarrow> nat option" where
  "url_pattern r =
     (case match_lit_nonspace ''https://'' r of
        Some n \<Rightarrow> Some n
      | None \<Rightarrow> match_lit_nonspace ''http://'' r)"

text \<open>\<open>t\.me/\S+\<close>\<close>

definition tme_pattern :: "string \<Rightarrow> nat option" where
  "tme_pattern r = match_lit_nonspace ''t.me/'' r"

text \<open>\<open>re.sub(r' +', ' ', text)\<close>: of every run of blanks the last one stays.\<close>

fun collapse_blanks :: "string \<Rightarrow> string" where
  "collapse_blanks (a # b # cs) =
     (if a = CHR '' '' \<and> b = CHR '' '' then collapse_blanks (b # cs)
      else a # collapse_blanks (b # cs))"
| "collapse_blanks cs = cs"

definition strip :: "string \<Rightarrow> string" where
  "strip s = rev (dropWhile is_space (rev (dropWhile is_space s)))"

section \<open>Configuration\<close>

text \<open>
  The module-level settings that \<open>process_message\<close>, \<open>get_messages\<close> and
  \<open>start_cloning\<close> read. \<open>text_replacements_dict\<close> is a Python dictionary, read only
  through \<open>items()\<close>: its pairs in insertion order.
\<close>

record config =
  REPLACE_TEXT :: bool
  text_replacements_dict :: "(string \<times> string) list"
  REMOVE_URLS :: bool
  ADD_SOURCE_LINK :: bool
  ANONYMIZE_FORWARDS :: bool
  MAX_MESSAGES :: int

section \<open>The text transform of \<open>process_message\<close> (lines 223 to 238)\<close>

text \<open>The loop \<open>for original, replacement in text_replacements_dict.items()\<close>.\<close>

fun apply_replacements :: "(string \<times> string) list \<Rightarrow> string \<Rightarrow> string" where
  "apply_replacements [] t = t"
| "apply_replacements ((original, replacement) # ps) t =
     apply_replacements ps (str_replace original replacement t)"

definition remove_urls :: "string \<Rightarrow> string" where
  "remove_urls t = strip (collapse_blanks (re_delete 0 tme_pattern (re_delete 0 url_pattern t)))"

definition transform_text :: "config \<Rightarrow> string \<Rightarrow> string" where
  "transform_text cfg t0 =
     (let t1 = (if REPLACE_TEXT cfg \<and> t0 \<noteq> [] then apply_replacements (text_replacements_dict cfg) t0
                else t0);
          t2 = (if REMOVE_URLS cfg \<and> t1 \<noteq> [] then remove_urls t1 else t1)
      in t2)"

section \<open>Telegram data\<close>

text \<open>
  The attributes of a document that the classification tells apart; every other
  attribute (file name, image size, ...) is \<open>DocumentAttributeOther\<close>. The flag of
  \<open>DocumentAttributeAudio\<close> is its field \<open>voice\<close>.
\<close>

datatype doc_attr =
    DocumentAttributeVideo
  | DocumentAttributeAudio bool
  | DocumentAttributeSticker
  | DocumentAttributeAnimated
  | DocumentAttributeOther

record poll =
  question :: string
  answers :: "string list"

record contact =
  first_name :: string
  last_name :: "string option"
  phone_number :: string

text \<open>\<open>message.media\<close>: the four kinds the code tests for, and any other kind
  (a web page preview, a location, ...). A document carries its attribute list.\<close>

datatype media =
    MessageMediaPhoto
  | MessageMediaDocument "doc_attr list"
  | MessageMediaPoll poll
  | MessageMediaContact contact
  | MessageMediaOther

record fwd_header =
  from_id :: "int option"
  channel_post :: "int option"

text \<open>
  A source message. \<open>msg_id\<close> is the field \<open>id\<close>, \<open>msg_text\<close> the property \<open>text\<close>
  (a string, empty when there is none), \<open>reply_to\<close> the \<open>reply_to_msg_id\<close> of the
  reply header when the message has one.
\<close>

record message =
  msg_id :: int
  msg_text :: string
  media :: "media option"
  reply_to :: "int option"
  grouped_id :: "int option"
  fwd_from :: "fwd_header option"

text \<open>What \<open>iter_messages\<close> yields: a message, a service message or nothing.\<close>

datatype fetched = NoMessage | MessageService | Message message

text \<open>An entity: a channel with its title and user name, a chat with its title, a user.\<close>

datatype entity = Channel string "string option" | Chat string | User

section \<open>Exceptions\<close>

text \<open>
  The exceptions that \<open>main.py\<close> tells apart. \<open>UnboundLocalError\<close> is raised by Python
  itself when a local variable is read before it was assigned; \<open>OtherError\<close> is any
  other subclass of \<open>Exception\<close>. \<open>KeyboardInterrupt\<close> derives from \<open>BaseException\<close>
  only: a handler \<open>except Exception\<close> lets it pass.
\<close>

datatype exn =
    FloodWaitError nat
  | SlowModeWaitError nat
  | ChatWriteForbiddenError
  | ChatAdminRequiredError
  | UnboundLocalError
  | OtherError
  | KeyboardInterrupt

fun is_Exception :: "exn \<Rightarrow> bool" where
  "is_Exception KeyboardInterrupt = False"
| "is_Exception e = True"

section \<open>The outside world\<close>

text \<open>The arguments of one call of \<open>client.send_message\<close>.\<close>

record send_request =
  req_text :: string
  req_file :: "string option"
  req_reply_to :: "int option"
  req_poll :: "poll option"
  req_contact :: "contact option"
  req_forward :: "(entity \<times> int option) option"

text \<open>
  Everything the program does not decide: what the Telegram client and the file system
  answer. The answer to a download, an entity lookup or a send is a function of how many
  such calls came before, so that any sequence of answers can be given. \<open>Inl\<close> is an
  exception raised by the call; a successful send answers the id of the new message.
\<close>

record world =
  start_error :: "exn option"
  source_lookup :: "exn + entity"
  destination_lookup :: "exn + entity"
  iter_items :: "fetched list"
  iter_error :: "exn option"
  download_result :: "nat \<Rightarrow> exn + string option"
  entity_result :: "nat \<Rightarrow> exn + entity"
  send_result :: "nat \<Rightarrow> exn + int"
  path_exists :: "string \<Rightarrow> bool"
  remove_error :: "string \<Rightarrow> exn option"
  disconnect_error :: "exn option"

section \<open>The state of a cloner\<close>

record stats =
  total_msgs :: nat
  cloned :: nat
  skipped :: nat
  failed :: nat
  photos :: nat
  videos :: nat
  files :: nat
  voices :: nat
  music :: nat
  gifs :: nat
  stickers :: nat
  polls :: nat
  contacts :: nat
  albums :: nat
  forwards :: nat
  text_only :: nat

text \<open>What \<open>main\<close> and \<open>start_cloning\<close> print.\<close>

datatype out_line =
    Banner
  | Progress nat nat
  | Report stats
  | Interrupted
  | CriticalError exn

text \<open>
  The fields of \<open>TelegramCloner\<close> (\<open>pending_replies\<close> is never read or written after
  \<open>__init__\<close> and is left out), followed by a log of what the program did to the world:
  the sends with their answers, the numbers of downloads and entity lookups, the
  rate-limit waits, the lines printed, and whether the client was disconnected.
\<close>

record cloner =
  source_entity :: "entity option"
  destination_entity :: "entity option"
  message_map :: "int \<rightharpoonup> int"
  processed_messages_ids :: "int set"
  seen_album_ids :: "int set"
  stats :: stats
  sent :: "(send_request \<times> (exn + int)) list"
  n_downloads :: nat
  n_lookups :: nat
  slept :: "nat list"
  printed :: "out_line list"
  disconnected :: bool

definition zero_stats :: stats where
  "zero_stats = \<lparr>total_msgs = 0, cloned = 0, skipped = 0, failed = 0, photos = 0, videos = 0,
     files = 0, voices = 0, music = 0, gifs = 0, stickers = 0, polls = 0, contacts = 0,
     albums = 0, forwards = 0, text_only = 0\<rparr>"

text \<open>\<open>TelegramCloner.__init__\<close>\<close>

definition new_cloner :: cloner where
  "new_cloner = \<lparr>source_entity = None, destination_entity = None, message_map = Map.empty,
     processed_messages_ids = {}, seen_album_ids = {}, stats = zero_stats,
     sent = [], n_downloads = 0, n_lookups = 0, slept = [], printed = [],
     disconnected = False\<rparr>"

section \<open>Calls into the world\<close>

definition download_media :: "world \<Rightarrow> cloner \<Rightarrow> (exn + string option) \<times> cloner" where
  "download_media w s = (download_result w (n_downloads s), s\<lparr>n_downloads := n_downloads s + 1\<rparr>)"

definition get_entity :: "world \<Rightarrow> cloner \<Rightarrow> (exn + entity) \<times> cloner" where
  "get_entity w s = (entity_result w (n_lookups s), s\<lparr>n_lookups := n_lookups s + 1\<rparr>)"

definition send_message :: "world \<Rightarrow> send_request \<Rightarrow> cloner \<Rightarrow> (exn + int) \<times> cloner" where
  "send_message w rq s =
     (send_result w (length (sent s)), s\<lparr>sent := sent s @ [(rq, send_result w (length (sent s)))]\<rparr>)"

text \<open>\<open>asyncio.sleep(e.seconds)\<close> in the two rate-limit handlers.\<close>

definition sleep :: "nat \<Rightarrow> cloner \<Rightarrow> cloner" where
  "sleep n s = s\<lparr>slept := slept s @ [n]\<rparr>"

text \<open>A plain send: text, file and reply target only.\<close>

definition plain_request :: "string \<Rightarrow> string option \<Rightarrow> int option \<Rightarrow> send_request" where
  "plain_request t f r = \<lparr>req_text = t, req_file = f, req_reply_to = r, req_poll = None,
     req_contact = None, req_forward = None\<rparr>"

text \<open>Python's truth value of \<open>file\<close>: neither \<open>None\<close> nor the empty string.\<close>

definition truthy :: "string option \<Rightarrow> bool" where
  "truthy f \<longleftrightarrow> (case f of None \<Rightarrow> False | Some p \<Rightarrow> p \<noteq> [])"

text \<open>\<open>self.stats[key] += 1\<close>, for the counter whose update function is given.\<close>

definition bump :: "((nat \<Rightarrow> nat) \<Rightarrow> stats \<Rightarrow> stats) \<Rightarrow> cloner \<Rightarrow> cloner" where
  "bump counter s = s\<lparr>stats := counter (\<lambda>n. n + 1) (stats s)\<rparr>"

section \<open>\<open>process_message\<close>: the steps\<close>

subsection \<open>The source link (lines 240 to 246)\<close>

definition digit_char :: "nat \<Rightarrow> char" where
  "digit_char d = char_of (48 + d)"

fun str_nat :: "nat \<Rightarrow> string" where
  "str_nat n = (if n < 10 then [digit_char n] else str_nat (n div 10) @ [digit_char (n mod 10)])"

declare str_nat.simps [simp del]

definition str_int :: "int \<Rightarrow> string" where
  "str_int i = (if i < 0 then CHR ''-'' # str_nat (nat (- i)) else str_nat (nat i))"

definition source_link_footer :: "string \<Rightarrow> string \<Rightarrow> int \<Rightarrow> string" where
  "source_link_footer title username i =
     ''\<newline>\<newline>[Original post](https://t.me/'' @ username @ ''/'' @ str_int i @ '') from [''
       @ title @ ''](https://t.me/'' @ username @ '')''"

definition add_source_link :: "config \<Rightarrow> entity option \<Rightarrow> int \<Rightarrow> string \<Rightarrow> string" where
  "add_source_link cfg src i t =
     (if ADD_SOURCE_LINK cfg then
        (case src of
           Some (Channel title (Some username)) \<Rightarrow>
             if username \<noteq> [] then t @ source_link_footer title username i else t
         | _ \<Rightarrow> t)
      else t)"

subsection \<open>Classification of a document (lines 261 to 281)\<close>

text \<open>The \<open>for ... else\<close> loop over the attributes: the first attribute of a known
  kind counts and ends the loop; the \<open>else\<close> branch runs when the loop ends without
  \<open>break\<close>.\<close>

fun classify_attrs :: "doc_attr list \<Rightarrow> cloner \<Rightarrow> cloner" where
  "classify_attrs [] s = bump files_update s"
| "classify_attrs (attr # rest) s =
     (case attr of
        DocumentAttributeVideo \<Rightarrow> bump videos_update s
      | DocumentAttributeAudio voice \<Rightarrow>
          if voice then bump voices_update s else bump music_update s
      | DocumentAttributeSticker \<Rightarrow> bump stickers_update s
      | DocumentAttributeAnimated \<Rightarrow> bump gifs_update s
      | DocumentAttributeOther \<Rightarrow> classify_attrs rest s)"

text \<open>The guard \<open>if document.attributes:\<close> around the loop.\<close>

definition classify_document :: "doc_attr list \<Rightarrow> cloner \<Rightarrow> cloner" where
  "classify_document attributes s = (if attributes \<noteq> [] then classify_attrs attributes s else s)"

subsection \<open>Media (lines 248 to 328)\<close>

text \<open>The media step either returns from \<open>process_message\<close> with the new message, or
  goes on with a text and a file.\<close>

datatype media_outcome = Returned int | Proceed string "string option"

text \<open>Lines 412 and 413, and the same two statements in the poll and contact branches.\<close>

definition record_clone :: "message \<Rightarrow> int \<Rightarrow> cloner \<Rightarrow> cloner" where
  "record_clone m new_id s = bump cloned_update (s\<lparr>message_map := (message_map s)(msg_id m \<mapsto> new_id)\<rparr>)"

definition poll_fallback_text :: "string \<Rightarrow> poll \<Rightarrow> string" where
  "poll_fallback_text t p =
     foldl (\<lambda>acc option. acc @ ''\<newline>- '' @ option) (t @ ''\<newline>\<newline>Poll: '' @ question p) (answers p)"

definition contact_fallback_text :: "string \<Rightarrow> contact \<Rightarrow> string" where
  "contact_fallback_text t ct =
     t @ ''\<newline>\<newline>Contact: '' @ first_name ct @ '' ''
       @ (case last_name ct of None \<Rightarrow> [] | Some l \<Rightarrow> l) @ ''\<newline>Phone: '' @ phone_number ct"

definition clone_poll ::
  "world \<Rightarrow> message \<Rightarrow> poll \<Rightarrow> string \<Rightarrow> cloner \<Rightarrow> (exn + media_outcome) \<times> cloner" where
  "clone_poll w m p t s =
     (case send_message w ((plain_request (if t \<noteq> [] then t else question p) None None)
                              \<lparr>req_poll := Some p\<rparr>) (bump polls_update s) of
        (Inr new_id, s1) \<Rightarrow> (Inr (Returned new_id), record_clone m new_id s1)
      | (Inl e, s1) \<Rightarrow>
          if is_Exception e then (Inr (Proceed (poll_fallback_text t p) None), s1)
          else (Inl e, s1))"

definition clone_contact ::
  "world \<Rightarrow> message \<Rightarrow> contact \<Rightarrow> string \<Rightarrow> cloner \<Rightarrow> (exn + media_outcome) \<times> cloner" where
  "clone_contact w m ct t s =
     (case send_message w ((plain_request t None None)\<lparr>req_contact := Some ct\<rparr>)
             (bump contacts_update s) of
        (Inr new_id, s1) \<Rightarrow> (Inr (Returned new_id), record_clone m new_id s1)
      | (Inl e, s1) \<Rightarrow>
          if is_Exception e then (Inr (Proceed (contact_fallback_text t ct) None), s1)
          else (Inl e, s1))"

text \<open>
  The block \<open>if message.media:\<close>. An exception of a download is caught by the handler of
  line 326: the counter of the kind is not reached, \<open>file\<close> is still \<open>None\<close>.
\<close>

definition handle_media ::
  "world \<Rightarrow> message \<Rightarrow> string \<Rightarrow> cloner \<Rightarrow> (exn + media_outcome) \<times> cloner" where
  "handle_media w m t s =
     (case media m of
        None \<Rightarrow> (Inr (Proceed t None), s)
      | Some MessageMediaPhoto \<Rightarrow>
          (case download_media w s of
             (Inr file, s1) \<Rightarrow> (Inr (Proceed t file), bump photos_update s1)
           | (Inl e, s1) \<Rightarrow>
               if is_Exception e then (Inr (Proceed t None), s1) else (Inl e, s1))
      | Some (MessageMediaDocument attributes) \<Rightarrow>
          (case download_media w s of
             (Inr file, s1) \<Rightarrow> (Inr (Proceed t file), classify_document attributes s1)
           | (Inl e, s1) \<Rightarrow>
               if is_Exception e then (Inr (Proceed t None), s1) else (Inl e, s1))
      | Some (MessageMediaPoll p) \<Rightarrow> clone_poll w m p t s
      | Some (MessageMediaContact ct) \<Rightarrow> clone_contact w m ct t s
      | Some MessageMediaOther \<Rightarrow> (Inr (Proceed t None), s))"

subsection \<open>The reply target (lines 330 to 336)\<close>

definition resolve_reply :: "cloner \<Rightarrow> message \<Rightarrow> int option" where
  "resolve_reply s m =
     (case reply_to m of
        None \<Rightarrow> None
      | Some reply_msg_id \<Rightarrow> message_map s reply_msg_id)"

subsection \<open>Forwards (lines 338 to 381)\<close>

definition forwarded_text :: "string \<Rightarrow> string" where
  "forwarded_text t = t @ ''\<newline>\<newline>[Forwarded message]''"

text \<open>The inner \<open>try\<close> of lines 347 to 364: the lookup of the original sender and the
  send as a forward, and on an exception of either the annotated plain send.\<close>

definition forward_with_entity ::
  "world \<Rightarrow> fwd_header \<Rightarrow> string \<Rightarrow> string option \<Rightarrow> int option \<Rightarrow> cloner \<Rightarrow> (exn + int) \<times> cloner" where
  "forward_with_entity w fwd t file reply s =
     (case (case get_entity w s of
              (Inr from_entity, s1) \<Rightarrow>
                send_message w ((plain_request t file reply)
                                  \<lparr>req_forward := Some (from_entity, channel_post fwd)\<rparr>) s1
            | (Inl e, s1) \<Rightarrow> (Inl e, s1)) of
        (Inr new_id, s2) \<Rightarrow> (Inr new_id, s2)
      | (Inl e, s2) \<Rightarrow>
          if is_Exception e then send_message w (plain_request (forwarded_text t) file reply) s2
          else (Inl e, s2))"

text \<open>The outer \<open>try\<close> of lines 344 to 381. The send in its handler is not guarded.\<close>

definition forward_send ::
  "world \<Rightarrow> fwd_header \<Rightarrow> string \<Rightarrow> string option \<Rightarrow> int option \<Rightarrow> cloner \<Rightarrow> (exn + int) \<times> cloner" where
  "forward_send w fwd t file reply s =
     (case (case from_id fwd of
              Some peer \<Rightarrow> forward_with_entity w fwd t file reply (bump forwards_update s)
            | None \<Rightarrow>
                send_message w (plain_request (forwarded_text t) file reply)
                  (bump forwards_update s)) of
        (Inr new_id, s3) \<Rightarrow> (Inr new_id, s3)
      | (Inl e, s3) \<Rightarrow>
          if is_Exception e then send_message w (plain_request (forwarded_text t) file reply) s3
          else (Inl e, s3))"

subsection \<open>The regular send (lines 382 to 409)\<close>

text \<open>
  How the regular branch ends: it returns \<open>None\<close> from \<open>process_message\<close> (line 409), or
  it goes on to line 412 with \<open>new_message\<close> assigned or not assigned.
\<close>

datatype send_outcome = GaveUp | Unbound | Bound int

definition regular_send ::
  "world \<Rightarrow> message \<Rightarrow> string \<Rightarrow> string option \<Rightarrow> int option \<Rightarrow> cloner \<Rightarrow> (exn + send_outcome) \<times> cloner" where
  "regular_send w m t file reply s =
     (case send_message w (plain_request t file reply) s of
        (Inr new_id, s1) \<Rightarrow>
          (Inr (Bound new_id),
           if \<not> truthy file \<and> fwd_from m = None then bump text_only_update s1 else s1)
      | (Inl e, s1) \<Rightarrow>
          if \<not> is_Exception e then (Inl e, s1)
          else if truthy file then
            (case send_message w
                    (plain_request (t @ ''\<newline>\<newline>[Media could not be sent]'') None reply) s1 of
               (Inr new_id, s2) \<Rightarrow> (Inr (Bound new_id), s2)
             | (Inl e2, s2) \<Rightarrow>
                 if is_Exception e2 then (Inr GaveUp, bump failed_update s2) else (Inl e2, s2))
          else (Inr Unbound, s1))"

subsection \<open>Removing the downloaded file (lines 415 to 417)\<close>

definition remove_file :: "world \<Rightarrow> string option \<Rightarrow> exn option" where
  "remove_file w file =
     (case file of
        None \<Rightarrow> None
      | Some p \<Rightarrow> if p \<noteq> [] \<and> path_exists w p then remove_error w p else None)"

section \<open>\<open>process_message\<close>\<close>

text \<open>
  Lines 330 to 409: the reply target is looked up in the map, then the message is sent
  as a forward (when it has a forward header and forwards are not made anonymous) or as
  a regular message.
\<close>

definition send_step ::
  "config \<Rightarrow> world \<Rightarrow> message \<Rightarrow> string \<Rightarrow> string option \<Rightarrow> cloner \<Rightarrow> (exn + send_outcome) \<times> cloner" where
  "send_step cfg w m t file s =
     (let reply = resolve_reply s m in
      case fwd_from m of
        Some fwd \<Rightarrow>
          if \<not> ANONYMIZE_FORWARDS cfg then
            (case forward_send w fwd t file reply s of
               (Inr new_id, s') \<Rightarrow> (Inr (Bound new_id), s')
             | (Inl e, s') \<Rightarrow> (Inl e, s'))
          else regular_send w m t file reply s
      | None \<Rightarrow> regular_send w m t file reply s)"

text \<open>
  Lines 411 to 420, reached with the outcome of the send: the map entry and the counter,
  the removal of the downloaded file, the return. Reading \<open>new_message\<close> when no send
  assigned it raises \<open>UnboundLocalError\<close>.
\<close>

definition bookkeeping ::
  "world \<Rightarrow> message \<Rightarrow> string option \<Rightarrow> send_outcome \<Rightarrow> cloner \<Rightarrow> (exn + int option) \<times> cloner" where
  "bookkeeping w m file outcome s =
     (case outcome of
        GaveUp \<Rightarrow> (Inr None, s)
      | Unbound \<Rightarrow> (Inl UnboundLocalError, s)
      | Bound new_id \<Rightarrow>
          (case remove_file w file of
             Some e \<Rightarrow> (Inl e, record_clone m new_id s)
           | None \<Rightarrow> (Inr (Some new_id), record_clone m new_id s)))"

text \<open>Lines 223 to 420: what happens to a message that passed the two guards.\<close>

definition dispatch ::
  "config \<Rightarrow> world \<Rightarrow> cloner \<Rightarrow> message \<Rightarrow> (exn + int option) \<times> cloner" where
  "dispatch cfg w s m =
     (let t = add_source_link cfg (source_entity s) (msg_id m) (transform_text cfg (msg_text m))
      in case handle_media w m t s of
           (Inl e, s1) \<Rightarrow> (Inl e, s1)
         | (Inr (Returned new_id), s1) \<Rightarrow> (Inr (Some new_id), s1)
         | (Inr (Proceed t' file), s1) \<Rightarrow>
             (case send_step cfg w m t' file s1 of
                (Inl e, s2) \<Rightarrow> (Inl e, s2)
              | (Inr outcome, s2) \<Rightarrow> bookkeeping w m file outcome s2))"

text \<open>\<open>if message.grouped_id\<close>: a group id counts by its truth value, \<open>None\<close> and 0
  do not.\<close>

definition album_id :: "message \<Rightarrow> int option" where
  "album_id m = (case grouped_id m of None \<Rightarrow> None | Some g \<Rightarrow> if g \<noteq> 0 then Some g else None)"

text \<open>
  The body of the outer \<open>try\<close> (lines 205 to 420). \<open>Inr r\<close> is a \<open>return\<close> of \<open>r\<close>,
  the id of the new message or \<open>None\<close>; \<open>Inl e\<close> is an exception that reaches the
  handlers of lines 422 to 440.
\<close>

definition process_body ::
  "config \<Rightarrow> world \<Rightarrow> cloner \<Rightarrow> message \<Rightarrow> (exn + int option) \<times> cloner" where
  "process_body cfg w s0 m =
     (if msg_id m \<in> processed_messages_ids s0 then (Inr None, s0)
      else
        let s1 = s0\<lparr>processed_messages_ids := insert (msg_id m) (processed_messages_ids s0)\<rparr> in
        case album_id m of
          None \<Rightarrow> dispatch cfg w s1 m
        | Some g \<Rightarrow>
            if g \<in> seen_album_ids s1 then (Inr None, bump skipped_update s1)
            else dispatch cfg w (s1\<lparr>seen_album_ids := insert g (seen_album_ids s1)\<rparr>) m)"

text \<open>
  \<open>process_message\<close>: the body under its four handlers. The two rate-limit handlers
  sleep and call \<open>process_message\<close> again with the same message; the handler of
  \<open>Exception\<close> counts a failure; \<open>KeyboardInterrupt\<close> is not caught.
\<close>

function process_message ::
  "config \<Rightarrow> world \<Rightarrow> cloner \<Rightarrow> message \<Rightarrow> (exn + int option) \<times> cloner" where
  "process_message cfg w s m =
     (case process_body cfg w s m of
        (Inr r, s') \<Rightarrow> (Inr r, s')
      | (Inl e, s') \<Rightarrow>
          (case e of
             FloodWaitError seconds \<Rightarrow> process_message cfg w (sleep seconds s') m
           | ChatWriteForbiddenError \<Rightarrow> (Inr None, bump failed_update s')
           | ChatAdminRequiredError \<Rightarrow> (Inr None, bump failed_update s')
           | SlowModeWaitError seconds \<Rightarrow> process_message cfg w (sleep seconds s') m
           | KeyboardInterrupt \<Rightarrow> (Inl KeyboardInterrupt, s')
           | _ \<Rightarrow> (Inr None, bump failed_update s')))"
  by pat_completeness auto

section \<open>The driver\<close>

text \<open>\<open>connect\<close> (lines 145 to 164): an exception of the client or of a lookup is
  logged and raised again.\<close>

definition connect :: "world \<Rightarrow> cloner \<Rightarrow> exn option \<times> cloner" where
  "connect w s =
     (case start_error w of
        Some e \<Rightarrow> (Some e, s)
      | None \<Rightarrow>
          (case source_lookup w of
             Inl e \<Rightarrow> (Some e, s)
           | Inr src \<Rightarrow>
               (case destination_lookup w of
                  Inl e \<Rightarrow> (Some e, s\<lparr>source_entity := Some src\<rparr>)
                | Inr dst \<Rightarrow>
                    (None, s\<lparr>source_entity := Some src, destination_entity := Some dst\<rparr>))))"

text \<open>
  \<open>get_messages\<close> (lines 166 to 200). The loop over what \<open>iter_messages\<close> yields keeps
  the messages that are not service messages, counts them, and stops at
  \<open>MAX_MESSAGES\<close>; \<open>err\<close> is the exception the iterator raises after its last item,
  if it does.
\<close>

fun fetch ::
  "config \<Rightarrow> exn option \<Rightarrow> fetched list \<Rightarrow> message list \<Rightarrow> cloner \<Rightarrow> (exn + message list) \<times> cloner" where
  "fetch cfg err [] messages s =
     (case err of Some e \<Rightarrow> (Inl e, s) | None \<Rightarrow> (Inr messages, s))"
| "fetch cfg err (x # xs) messages s =
     (case x of
        Message msg \<Rightarrow>
          if 0 < MAX_MESSAGES cfg \<and> MAX_MESSAGES cfg \<le> int (length (messages @ [msg]))
          then (Inr (messages @ [msg]), bump total_msgs_update s)
          else fetch cfg err xs (messages @ [msg]) (bump total_msgs_update s)
      | _ \<Rightarrow> fetch cfg err xs messages s)"

definition get_messages :: "config \<Rightarrow> world \<Rightarrow> cloner \<Rightarrow> (exn + message list) \<times> cloner" where
  "get_messages cfg w s = fetch cfg (iter_error w) (iter_items w) [] s"

text \<open>
  The loop of \<open>start_cloning\<close> (lines 460 to 475) over the messages from index \<open>i\<close>
  on, \<open>n\<close> being the number of all messages. The pause between two messages takes time
  only and is left out. The handler of the loop catches \<open>Exception\<close>.
\<close>

fun clone_loop ::
  "config \<Rightarrow> world \<Rightarrow> nat \<Rightarrow> nat \<Rightarrow> message list \<Rightarrow> cloner \<Rightarrow> exn option \<times> cloner" where
  "clone_loop cfg w n i [] s = (None, s)"
| "clone_loop cfg w n i (message # rest) s =
     (case process_message cfg w s message of
        (Inr r, s1) \<Rightarrow>
          clone_loop cfg w n (i + 1) rest
            (if (i + 1) mod 10 = 0 \<or> i + 1 = n then s1\<lparr>printed := printed s1 @ [Progress (i + 1) n]\<rparr>
             else s1)
      | (Inl e, s1) \<Rightarrow>
          if is_Exception e then clone_loop cfg w n (i + 1) rest s1 else (Some e, s1))"

text \<open>The \<open>try\<close> block of \<open>start_cloning\<close> (lines 445 to 481); its handler logs the
  exception and raises it again.\<close>

definition cloning_steps :: "config \<Rightarrow> world \<Rightarrow> cloner \<Rightarrow> (exn + stats) \<times> cloner" where
  "cloning_steps cfg w s =
     (case connect w s of
        (Some e, s1) \<Rightarrow> (Inl e, s1)
      | (None, s1) \<Rightarrow>
          (case get_messages cfg w s1 of
             (Inl e, s2) \<Rightarrow> (Inl e, s2)
           | (Inr messages, s2) \<Rightarrow>
               if messages = [] then (Inr (stats s2), s2)
               else
                 (case clone_loop cfg w (length messages) 0 messages s2 of
                    (Some e, s3) \<Rightarrow> (Inl e, s3)
                  | (None, s3) \<Rightarrow> (Inr (stats s3), s3))))"

text \<open>\<open>start_cloning\<close>: the \<open>try\<close> block, then the \<open>finally\<close> block, which calls
  \<open>client.disconnect()\<close>; an exception of the disconnect replaces the outcome.\<close>

definition start_cloning :: "config \<Rightarrow> world \<Rightarrow> cloner \<Rightarrow> (exn + stats) \<times> cloner" where
  "start_cloning cfg w s =
     (case cloning_steps cfg w s of
        (r, s1) \<Rightarrow>
          (case disconnect_error w of
             Some e \<Rightarrow> (Inl e, s1\<lparr>disconnected := True\<rparr>)
           | None \<Rightarrow> (r, s1\<lparr>disconnected := True\<rparr>)))"

text \<open>\<open>main\<close> (lines 497 to 537): the exit code and the lines printed.\<close>

definition main :: "config \<Rightarrow> world \<Rightarrow> int \<times> out_line list" where
  "main cfg w =
     (case start_cloning cfg w (new_cloner\<lparr>printed := [Banner]\<rparr>) of
        (Inr st, s) \<Rightarrow> (0, printed s @ [Report st])
      | (Inl e, s) \<Rightarrow>
          (case e of
             KeyboardInterrupt \<Rightarrow> (130, printed s @ [Interrupted])
           | _ \<Rightarrow> (1, printed s @ [CriticalError e])))"

section \<open>Notions used in the statements\<close>

text \<open>
  The text \<open>s\<close> holds a link that starts with \<open>lit\<close>: somewhere in it \<open>lit\<close> is
  followed by a character that is not white space. This is where the pattern \<open>lit\<close>
  followed by \<open>\S+\<close> finds a match.
\<close>

definition has_link :: "string \<Rightarrow> string \<Rightarrow> bool" where
  "has_link lit s \<longleftrightarrow> (\<exists>a c b. s = a @ lit @ c # b \<and> \<not> is_space c)"

text \<open>No call into the world is interrupted from the keyboard.\<close>

definition uninterrupted :: "world \<Rightarrow> bool" where
  "uninterrupted w \<longleftrightarrow>
     (\<forall>n. download_result w n \<noteq> Inl KeyboardInterrupt)
     \<and> (\<forall>n. entity_result w n \<noteq> Inl KeyboardInterrupt)
     \<and> (\<forall>n. send_result w n \<noteq> Inl KeyboardInterrupt)
     \<and> (\<forall>p. remove_error w p \<noteq> Some KeyboardInterrupt)"

text \<open>The run reaches the loop over the messages: the connection and the fetch
  succeed and there is a message.\<close>

definition reaches_loop :: "config \<Rightarrow> world \<Rightarrow> bool" where
  "reaches_loop cfg w =
     (case connect w (new_cloner\<lparr>printed := [Banner]\<rparr>) of
        (Some e, s1) \<Rightarrow> False
      | (None, s1) \<Rightarrow>
          (case get_messages cfg w s1 of
             (Inl e, s2) \<Rightarrow> False
           | (Inr messages, s2) \<Rightarrow> messages \<noteq> []))"

text \<open>The statistics report is among the lines printed.\<close>

fun is_Report :: "out_line \<Rightarrow> bool" where
  "is_Report (Report st) = True"
| "is_Report l = False"

definition report_printed :: "out_line list \<Rightarrow> bool" where
  "report_printed out = list_ex is_Report out"

text \<open>The state of a message that passed the two guards at the head of
  \<open>process_message\<close>: its id is marked, and its album, if it has one, is seen.\<close>

definition admitted :: "message \<Rightarrow> cloner \<Rightarrow> cloner" where
  "admitted m s =
     s\<lparr>processed_messages_ids := insert (msg_id m) (processed_messages_ids s),
       seen_album_ids := (case album_id m of None \<Rightarrow> seen_album_ids s
                          | Some g \<Rightarrow> insert g (seen_album_ids s))\<rparr>"

text \<open>The sends made between two states, and the ids of the new messages of those
  that succeeded.\<close>

definition new_sends :: "cloner \<Rightarrow> cloner \<Rightarrow> (send_request \<times> (exn + int)) list" where
  "new_sends s s' = drop (length (sent s)) (sent s')"

definition successes :: "(send_request \<times> (exn + int)) list \<Rightarrow> int list" where
  "successes es = concat (map (\<lambda>e. case snd e of Inl x \<Rightarrow> [] | Inr v \<Rightarrow> [v]) es)"

text \<open>
  The effect of handling the message \<open>m\<close> between two states on the log and on the
  map: the log grows at its end, at most one of the new sends succeeded, and the map
  has the id of \<open>m\<close> mapped to the new message of that send, or is unchanged when none
  succeeded.
\<close>

definition clone_effect :: "message \<Rightarrow> cloner \<Rightarrow> cloner \<Rightarrow> bool" where
  "clone_effect m s s' \<longleftrightarrow>
     sent s' = sent s @ new_sends s s'
     \<and> length (successes (new_sends s s')) \<le> 1
     \<and> message_map s' =
         (case successes (new_sends s s') of
            [] \<Rightarrow> message_map s
          | v # vs \<Rightarrow> (message_map s)(msg_id m \<mapsto> v))"

section \<open>The classification as the specification words it\<close>

text \<open>
  Section 4.1 of the specification: the kinds of a document, the kind an attribute
  stands for, and the rule that the first attribute standing for a kind decides, a
  document without such an attribute being a generic file. \<open>kind_counter\<close> is the
  counter of a kind in the statistics, \<open>document_counters\<close> the sum of the six.
\<close>

datatype doc_kind = Video | Voice | Music | Sticker | Animated | GenericFile

fun attr_kind :: "doc_attr \<Rightarrow> doc_kind option" where
  "attr_kind DocumentAttributeVideo = Some Video"
| "attr_kind (DocumentAttributeAudio voice) = Some (if voice then Voice else Music)"
| "attr_kind DocumentAttributeSticker = Some Sticker"
| "attr_kind DocumentAttributeAnimated = Some Animated"
| "attr_kind DocumentAttributeOther = None"

fun first_matching_kind :: "doc_attr list \<Rightarrow> doc_kind" where
  "first_matching_kind [] = GenericFile"
| "first_matching_kind (attr # rest) =
     (case attr_kind attr of Some k \<Rightarrow> k | None \<Rightarrow> first_matching_kind rest)"

fun kind_counter :: "doc_kind \<Rightarrow> (nat \<Rightarrow> nat) \<Rightarrow> stats \<Rightarrow> stats" where
  "kind_counter Video = videos_update"
| "kind_counter Voice = voices_update"
| "kind_counter Music = music_update"
| "kind_counter Sticker = stickers_update"
| "kind_counter Animated = gifs_update"
| "kind_counter GenericFile = files_update"

definition document_counters :: "stats \<Rightarrow> nat" where
  "document_counters st = videos st + voices st + music st + stickers st + gifs st + files st"

section \<open>Example inputs\<close>




text \<open>All switches off, no limit on the number of messages.\<close>

definition plain_config :: config where
  "plain_config = \<lparr>REPLACE_TEXT = False, text_replacements_dict = [], REMOVE_URLS = False,
     ADD_SOURCE_LINK = False, ANONYMIZE_FORWARDS = False, MAX_MESSAGES = 0\<rparr>"

text \<open>A message with a text and nothing else.\<close>

definition text_message :: "int \<Rightarrow> string \<Rightarrow> message" where
  "text_message i t = \<lparr>msg_id = i, msg_text = t, media = None, reply_to = None,
     grouped_id = None, fwd_from = None\<rparr>"

text \<open>
  A world in which the connection succeeds, the source holds the given items, every
  download and lookup succeeds, and the sends are answered as given.
\<close>

definition world_with :: "fetched list \<Rightarrow> (nat \<Rightarrow> exn + int) \<Rightarrow> world" where
  "world_with items outcomes = \<lparr>start_error = None, source_lookup = Inr (Chat ''source''),
     destination_lookup = Inr (Chat ''destination''), iter_items = items, iter_error = None,
     download_result = (\<lambda>n. Inr (Some ''downloads/file'')), entity_result = (\<lambda>n. Inr User),
     send_result = outcomes, path_exists = (\<lambda>p. True), remove_error = (\<lambda>p. None),
     disconnect_error = None\<rparr>"

text \<open>Three messages of one album, in a world where every send succeeds.\<close>

definition album_message :: "int \<Rightarrow> int \<Rightarrow> message" where
  "album_message i g = (text_message i ''item'')\<lparr>grouped_id := Some g\<rparr>"

definition album_world :: world where
  "album_world = world_with [Message (album_message 1 7), Message (album_message 2 7),
     Message (album_message 3 7)] (\<lambda>n. Inr (100 + int n))"

text \<open>One text message, in a world where the first send is interrupted.\<close>

definition interrupted_world :: world where
  "interrupted_world = world_with [Message (text_message 1 ''hi'')] (\<lambda>n. Inl KeyboardInterrupt)"

text \<open>A poll without text and without reply target, group or forward header.\<close>

definition poll_message :: "int \<Rightarrow> poll \<Rightarrow> message" where
  "poll_message i p = (text_message i [])\<lparr>media := Some (MessageMediaPoll p)\<rparr>"

definition lunch_poll :: poll where
  "lunch_poll = \<lparr>question = ''Lunch?'', answers = [''yes'', ''no'']\<rparr>"

text \<open>A world without messages in which the first send fails and the later ones succeed.\<close>

definition first_send_fails :: "exn \<Rightarrow> world" where
  "first_send_fails e = world_with [] (\<lambda>n. if n = 0 then Inl e else Inr (100 + int n))"

text \<open>A document without text, and a world without messages in which every call
  succeeds.\<close>

definition document_message :: "int \<Rightarrow> doc_attr list \<Rightarrow> message" where
  "document_message i attributes = (text_message i [])\<lparr>media := Some (MessageMediaDocument attributes)\<rparr>"

definition all_succeed :: world where
  "all_succeed = world_with [] (\<lambda>n. Inr (100 + int n))"

text \<open>A forwarded text message whose forward header names no sender, and a world
  without messages in which the first two sends fail and the later ones succeed.\<close>

definition forwarded_message :: "int \<Rightarrow> string \<Rightarrow> message" where
  "forwarded_message i t = (text_message i t)\<lparr>fwd_from := Some \<lparr>from_id = None, channel_post = None\<rparr>\<rparr>"

definition first_two_sends_fail :: "exn \<Rightarrow> world" where
  "first_two_sends_fail e = world_with [] (\<lambda>n. if n < 2 then Inl e else Inr (100 + int n))"

text \<open>The cloner after it cloned the text message 1 as 100, and two replies to that
  message: a poll and a text.\<close>

definition after_first_clone :: cloner where
  "after_first_clone = snd (process_message plain_config all_succeed new_cloner (text_message 1 ''hi''))"

definition poll_reply :: message where
  "poll_reply = (poll_message 2 lunch_poll)\<lparr>reply_to := Some 1\<rparr>"

definition text_reply :: message where
  "text_reply = (text_message 2 ''well'')\<lparr>reply_to := Some 1\<rparr>"

text \<open>Three messages that share the group id 0, in a world where every send succeeds.\<close>

definition zero_album_world :: world where
  "zero_album_world = world_with [Message (album_message 1 0), Message (album_message 2 0),
     Message (album_message 3 0)] (\<lambda>n. Inr (100 + int n))"

section \<open>Termination of \<open>process_message\<close>: a retry finds the message already marked\<close>

lemmas world_defs = send_message_def get_entity_def download_media_def

lemmas book_defs = record_clone_def bump_def

lemma classify_attrs_processed [simp]:
  "processed_messages_ids (classify_attrs attrs s) = processed_messages_ids s"
  by (induction attrs) (auto simp: bump_def split: doc_attr.splits)

lemma handle_media_processed [simp]:
  "processed_messages_ids (snd (handle_media w m t s)) = processed_messages_ids s"
  by (simp add: handle_media_def clone_poll_def clone_contact_def world_defs book_defs
      classify_document_def split: option.splits media.splits sum.splits)

lemma forward_send_processed [simp]:
  "processed_messages_ids (snd (forward_send w fwd t file reply s)) = processed_messages_ids s"
  by (simp add: forward_send_def forward_with_entity_def world_defs bump_def split_beta
      split: sum.splits option.splits)

lemma regular_send_processed [simp]:
  "processed_messages_ids (snd (regular_send w m t file reply s)) = processed_messages_ids s"
  by (simp add: regular_send_def world_defs bump_def split: sum.splits)

lemma send_step_processed [simp]:
  "processed_messages_ids (snd (send_step cfg w m t file s)) = processed_messages_ids s"
  by (simp add: send_step_def Let_def split_beta split: sum.splits option.splits)

lemma bookkeeping_processed [simp]:
  "processed_messages_ids (snd (bookkeeping w m file outcome s)) = processed_messages_ids s"
  by (simp add: bookkeeping_def book_defs split: send_outcome.splits option.splits)

lemma dispatch_processed [simp]:
  "processed_messages_ids (snd (dispatch cfg w s m)) = processed_messages_ids s"
  by (simp add: dispatch_def Let_def split_beta split: sum.splits media_outcome.splits)

lemma process_body_processed:
  "processed_messages_ids (snd (process_body cfg w s m)) = insert (msg_id m) (processed_messages_ids s)"
  by (auto simp: process_body_def Let_def bump_def split: option.splits)

lemma process_body_raises_fresh:
  "process_body cfg w s m = (Inl e, s') \<Longrightarrow> msg_id m \<notin> processed_messages_ids s"
  by (auto simp: process_body_def)

lemma retry_is_marked:
  assumes "(x, s') = process_body cfg w s m" and "x = Inl e"
  shows "((cfg, w, sleep seconds s', m), (cfg, w, s, m))
           \<in> measure (\<lambda>(cfg, w, s, m). if msg_id m \<in> processed_messages_ids s then 0 else 1)"
proof -
  have body: "process_body cfg w s m = (Inl e, s')"
    using assms by simp
  have "msg_id m \<notin> processed_messages_ids s"
    using process_body_raises_fresh [OF body] .
  moreover have "msg_id m \<in> processed_messages_ids s'"
    using process_body_processed [of cfg w s m] body by simp
  ultimately show ?thesis
    by (simp add: sleep_def)
qed

termination process_message
  by (relation "measure (\<lambda>(cfg, w, s, m). if msg_id m \<in> processed_messages_ids s then 0 else 1)")
     (simp, (rule retry_is_marked, assumption, assumption)+)

declare process_message.simps [simp del]

section \<open>Properties of the text transform\<close>


subsection \<open>Replacing\<close>




subsection \<open>Links and matches\<close>




lemma has_link_Nil [simp]: "\<not> has_link lit []"
  by (simp add: has_link_def)




subsection \<open>Deleting matches\<close>












subsection \<open>Collapsing blanks\<close>

lemma is_space_blank [simp]: "is_space (CHR '' '')"
  by (simp add: is_space_def)





subsection \<open>Trimming\<close>




subsection \<open>The removal of links\<close>

















section \<open>\<open>process_message\<close> without recursion\<close>

lemma process_message_marked:
  "msg_id m \<in> processed_messages_ids s \<Longrightarrow> process_message cfg w s m = (Inr None, s)"
  by (subst process_message.simps) (simp add: process_body_def)

lemma process_message_eq:
  "process_message cfg w s m =
     (case process_body cfg w s m of
        (Inr r, s') \<Rightarrow> (Inr r, s')
      | (Inl e, s') \<Rightarrow>
          (case e of
             FloodWaitError seconds \<Rightarrow> (Inr None, sleep seconds s')
           | SlowModeWaitError seconds \<Rightarrow> (Inr None, sleep seconds s')
           | KeyboardInterrupt \<Rightarrow> (Inl KeyboardInterrupt, s')
           | _ \<Rightarrow> (Inr None, bump failed_update s')))"
proof -
  obtain x s' where body: "process_body cfg w s m = (x, s')"
    by (cases "process_body cfg w s m")
  have marked: "msg_id m \<in> processed_messages_ids (sleep n s')" for n
    using process_body_processed [of cfg w s m] body by (simp add: sleep_def)
  show ?thesis
    by (subst process_message.simps)
       (simp add: body process_message_marked [OF marked] split: sum.splits exn.splits)
qed

section \<open>What the steps leave alone\<close>

lemma classify_attrs_frame [simp]:
  "seen_album_ids (classify_attrs attrs s) = seen_album_ids s"
  "albums (stats (classify_attrs attrs s)) = albums (stats s)"
  "skipped (stats (classify_attrs attrs s)) = skipped (stats s)"
  "total_msgs (stats (classify_attrs attrs s)) = total_msgs (stats s)"
  "printed (classify_attrs attrs s) = printed s"
  "slept (classify_attrs attrs s) = slept s"
  "message_map (classify_attrs attrs s) = message_map s"
  "sent (classify_attrs attrs s) = sent s"
  by (induction attrs; simp add: bump_def split: doc_attr.splits)+

lemma handle_media_frame [simp]:
  "seen_album_ids (snd (handle_media w m t s)) = seen_album_ids s"
  "albums (stats (snd (handle_media w m t s))) = albums (stats s)"
  "skipped (stats (snd (handle_media w m t s))) = skipped (stats s)"
  "total_msgs (stats (snd (handle_media w m t s))) = total_msgs (stats s)"
  "printed (snd (handle_media w m t s)) = printed s"
  "slept (snd (handle_media w m t s)) = slept s"
  by (simp_all add: handle_media_def clone_poll_def clone_contact_def world_defs book_defs
      classify_document_def split: option.splits media.splits sum.splits)

lemma forward_send_frame [simp]:
  "seen_album_ids (snd (forward_send w fwd t file reply s)) = seen_album_ids s"
  "albums (stats (snd (forward_send w fwd t file reply s))) = albums (stats s)"
  "skipped (stats (snd (forward_send w fwd t file reply s))) = skipped (stats s)"
  "total_msgs (stats (snd (forward_send w fwd t file reply s))) = total_msgs (stats s)"
  "printed (snd (forward_send w fwd t file reply s)) = printed s"
  "slept (snd (forward_send w fwd t file reply s)) = slept s"
  "message_map (snd (forward_send w fwd t file reply s)) = message_map s"
  by (simp_all add: forward_send_def forward_with_entity_def world_defs bump_def split_beta
      split: sum.splits option.splits)

lemma regular_send_frame [simp]:
  "seen_album_ids (snd (regular_send w m t file reply s)) = seen_album_ids s"
  "albums (stats (snd (regular_send w m t file reply s))) = albums (stats s)"
  "skipped (stats (snd (regular_send w m t file reply s))) = skipped (stats s)"
  "total_msgs (stats (snd (regular_send w m t file reply s))) = total_msgs (stats s)"
  "printed (snd (regular_send w m t file reply s)) = printed s"
  "slept (snd (regular_send w m t file reply s)) = slept s"
  "message_map (snd (regular_send w m t file reply s)) = message_map s"
  by (simp_all add: regular_send_def world_defs bump_def split: sum.splits)

lemma send_step_frame [simp]:
  "seen_album_ids (snd (send_step cfg w m t file s)) = seen_album_ids s"
  "albums (stats (snd (send_step cfg w m t file s))) = albums (stats s)"
  "skipped (stats (snd (send_step cfg w m t file s))) = skipped (stats s)"
  "total_msgs (stats (snd (send_step cfg w m t file s))) = total_msgs (stats s)"
  "printed (snd (send_step cfg w m t file s)) = printed s"
  "slept (snd (send_step cfg w m t file s)) = slept s"
  "message_map (snd (send_step cfg w m t file s)) = message_map s"
  by (simp_all add: send_step_def Let_def split_beta split: sum.splits option.splits)

lemma bookkeeping_frame [simp]:
  "seen_album_ids (snd (bookkeeping w m file outcome s)) = seen_album_ids s"
  "albums (stats (snd (bookkeeping w m file outcome s))) = albums (stats s)"
  "skipped (stats (snd (bookkeeping w m file outcome s))) = skipped (stats s)"
  "total_msgs (stats (snd (bookkeeping w m file outcome s))) = total_msgs (stats s)"
  "printed (snd (bookkeeping w m file outcome s)) = printed s"
  "slept (snd (bookkeeping w m file outcome s)) = slept s"
  "sent (snd (bookkeeping w m file outcome s)) = sent s"
  by (simp_all add: bookkeeping_def book_defs split: send_outcome.splits option.splits)

lemma dispatch_frame [simp]:
  "seen_album_ids (snd (dispatch cfg w s m)) = seen_album_ids s"
  "albums (stats (snd (dispatch cfg w s m))) = albums (stats s)"
  "skipped (stats (snd (dispatch cfg w s m))) = skipped (stats s)"
  "total_msgs (stats (snd (dispatch cfg w s m))) = total_msgs (stats s)"
  "printed (snd (dispatch cfg w s m)) = printed s"
  "slept (snd (dispatch cfg w s m)) = slept s"
  by (simp_all add: dispatch_def Let_def split_beta split: sum.splits media_outcome.splits)

lemma process_body_frame [simp]:
  "albums (stats (snd (process_body cfg w s m))) = albums (stats s)"
  "total_msgs (stats (snd (process_body cfg w s m))) = total_msgs (stats s)"
  "printed (snd (process_body cfg w s m)) = printed s"
  "slept (snd (process_body cfg w s m)) = slept s"
  by (simp_all add: process_body_def Let_def bump_def split: option.splits)

lemma process_message_frame [simp]:
  "albums (stats (snd (process_message cfg w s m))) = albums (stats s)"
  "total_msgs (stats (snd (process_message cfg w s m))) = total_msgs (stats s)"
  "printed (snd (process_message cfg w s m)) = printed s"
  by (simp_all add: process_message_eq split_beta bump_def sleep_def split: sum.splits exn.splits)

lemma process_message_processed:
  "processed_messages_ids (snd (process_message cfg w s m)) = insert (msg_id m) (processed_messages_ids s)"
  by (simp add: process_message_eq split_beta bump_def sleep_def process_body_processed split: sum.splits exn.splits)

section \<open>Interrupts\<close>

lemma is_Exception_iff: "is_Exception e \<longleftrightarrow> e \<noteq> KeyboardInterrupt"
  by (cases e) simp_all

lemma handle_media_uninterrupted:
  "uninterrupted w \<Longrightarrow> fst (handle_media w m t s) \<noteq> Inl KeyboardInterrupt"
  by (auto simp: uninterrupted_def handle_media_def clone_poll_def clone_contact_def world_defs
      is_Exception_iff split: option.splits media.splits sum.splits)

lemma forward_send_uninterrupted:
  "uninterrupted w \<Longrightarrow> fst (forward_send w fwd t file reply s) \<noteq> Inl KeyboardInterrupt"
  by (auto simp: uninterrupted_def forward_send_def forward_with_entity_def world_defs
      is_Exception_iff split: option.splits sum.splits)

lemma regular_send_uninterrupted:
  "uninterrupted w \<Longrightarrow> fst (regular_send w m t file reply s) \<noteq> Inl KeyboardInterrupt"
  by (auto simp: uninterrupted_def regular_send_def world_defs is_Exception_iff split: sum.splits)

lemma send_step_uninterrupted:
  "uninterrupted w \<Longrightarrow> fst (send_step cfg w m t file s) \<noteq> Inl KeyboardInterrupt"
  using forward_send_uninterrupted [of w] regular_send_uninterrupted [of w]
  by (auto simp: send_step_def Let_def split_beta split: option.splits sum.splits)

lemma bookkeeping_uninterrupted:
  "uninterrupted w \<Longrightarrow> fst (bookkeeping w m file outcome s) \<noteq> Inl KeyboardInterrupt"
  by (auto simp: uninterrupted_def bookkeeping_def remove_file_def
      split: send_outcome.splits option.splits)

lemma dispatch_uninterrupted:
  "uninterrupted w \<Longrightarrow> fst (dispatch cfg w s m) \<noteq> Inl KeyboardInterrupt"
  using handle_media_uninterrupted [of w m] send_step_uninterrupted [of w cfg m]
    bookkeeping_uninterrupted [of w m]
  by (auto simp: dispatch_def Let_def split_beta split: sum.splits media_outcome.splits)

lemma process_body_uninterrupted:
  "uninterrupted w \<Longrightarrow> fst (process_body cfg w s m) \<noteq> Inl KeyboardInterrupt"
  using dispatch_uninterrupted [of w cfg]
  by (auto simp: process_body_def Let_def split: option.splits)

lemma process_message_raises:
  "fst (process_message cfg w s m) = Inl e \<Longrightarrow>
     e = KeyboardInterrupt \<and> fst (process_body cfg w s m) = Inl KeyboardInterrupt"
  by (auto simp: process_message_eq split_beta split: sum.splits exn.splits)

lemma process_message_uninterrupted:
  "uninterrupted w \<Longrightarrow> \<exists>r. fst (process_message cfg w s m) = Inr r"
  using process_message_raises [of cfg w s m] process_body_uninterrupted [of w cfg s m]
  by (cases "fst (process_message cfg w s m)") auto

lemmas eval_defs = main_def start_cloning_def cloning_steps_def connect_def get_messages_def
  process_message_eq process_body_def album_id_def dispatch_def handle_media_def clone_poll_def
  clone_contact_def send_step_def forward_send_def forward_with_entity_def regular_send_def
  bookkeeping_def remove_file_def resolve_reply_def world_defs book_defs sleep_def
  classify_document_def plain_request_def truthy_def add_source_link_def transform_text_def
  new_cloner_def zero_stats_def

section \<open>The driver: what a run leaves alone\<close>

lemma fetch_frame [simp]:
  "albums (stats (snd (fetch cfg err xs acc s))) = albums (stats s)"
  "printed (snd (fetch cfg err xs acc s)) = printed s"
  by (induction xs arbitrary: acc s; simp add: bump_def split: fetched.splits option.splits)+

lemma connect_frame [simp]:
  "stats (snd (connect w s)) = stats s"
  "printed (snd (connect w s)) = printed s"
  by (simp_all add: connect_def split: option.splits sum.splits)

lemma clone_loop_albums [simp]:
  "albums (stats (snd (clone_loop cfg w n i msgs s))) = albums (stats s)"
  by (induction msgs arbitrary: i s) (simp_all add: split_beta split: sum.splits)

lemma clone_loop_no_report [simp]:
  "report_printed (printed (snd (clone_loop cfg w n i msgs s))) = report_printed (printed s)"
  by (induction msgs arbitrary: i s) (simp_all add: split_beta report_printed_def split: sum.splits)

lemma cloning_steps_frame [simp]:
  "albums (stats (snd (cloning_steps cfg w s))) = albums (stats s)"
  "report_printed (printed (snd (cloning_steps cfg w s))) = report_printed (printed s)"
  by (simp_all add: cloning_steps_def get_messages_def split_beta split: option.splits sum.splits)

lemma cloning_steps_returns_stats:
  "fst (cloning_steps cfg w s) = Inr st \<Longrightarrow> st = stats (snd (cloning_steps cfg w s))"
  by (auto simp: cloning_steps_def split_beta split: option.splits sum.splits if_splits)

lemma start_cloning_frame [simp]:
  "albums (stats (snd (start_cloning cfg w s))) = albums (stats s)"
  "report_printed (printed (snd (start_cloning cfg w s))) = report_printed (printed s)"
  "disconnected (snd (start_cloning cfg w s))"
  by (simp_all add: start_cloning_def split_beta split: option.splits)

lemma start_cloning_returns_stats:
  "fst (start_cloning cfg w s) = Inr st \<Longrightarrow> st = stats (snd (start_cloning cfg w s))"
  using cloning_steps_returns_stats [of cfg w s st]
  by (auto simp: start_cloning_def split_beta split: option.splits)

lemma clone_loop_uninterrupted:
  "uninterrupted w \<Longrightarrow> fst (clone_loop cfg w n i msgs s) = None"
proof (induction msgs arbitrary: i s)
  case Nil
  then show ?case by simp
next
  case (Cons m msgs)
  obtain r where "fst (process_message cfg w s m) = Inr r"
    using process_message_uninterrupted [OF Cons.prems] by blast
  then show ?case
    using Cons by (simp add: split_beta)
qed

section \<open>The final report\<close>

lemma main_report_iff:
  "report_printed (snd (main cfg w))
     \<longleftrightarrow> (\<exists>st. fst (start_cloning cfg w (new_cloner\<lparr>printed := [Banner]\<rparr>)) = Inr st)"
proof -
  have "\<not> report_printed (printed (snd (start_cloning cfg w (new_cloner\<lparr>printed := [Banner]\<rparr>))))"
    by (simp only: start_cloning_frame) (simp add: report_printed_def new_cloner_def)
  then show ?thesis
    by (auto simp: main_def split_beta report_printed_def split: sum.splits exn.splits)
qed

lemma main_exit_code:
  "fst (main cfg w) =
     (case fst (start_cloning cfg w (new_cloner\<lparr>printed := [Banner]\<rparr>)) of
        Inr st \<Rightarrow> 0
      | Inl e \<Rightarrow> if e = KeyboardInterrupt then 130 else 1)"
  by (simp add: main_def split_beta split: sum.splits exn.splits)

lemma start_cloning_normal:
  assumes "reaches_loop cfg w" and "uninterrupted w" and "disconnect_error w = None"
  shows "\<exists>st. fst (start_cloning cfg w (new_cloner\<lparr>printed := [Banner]\<rparr>)) = Inr st"
  using assms clone_loop_uninterrupted [OF assms(2), of cfg]
  by (auto simp: reaches_loop_def start_cloning_def cloning_steps_def split_beta
      split: option.splits sum.splits)

text \<open>
  Claim C2, as stated, fails: the run of \<open>interrupted_world\<close> reaches the loop, its
  first send is interrupted, the client is disconnected, and \<open>main\<close> prints the
  interrupt line and no report.
\<close>

theorem report_not_printed_counterexample:
  "reaches_loop plain_config interrupted_world
   \<and> disconnected (snd (start_cloning plain_config interrupted_world (new_cloner\<lparr>printed := [Banner]\<rparr>)))
   \<and> main plain_config interrupted_world = (130, [Banner, Interrupted])
   \<and> \<not> report_printed (snd (main plain_config interrupted_world))"
  by (simp add: reaches_loop_def report_printed_def eval_defs plain_config_def world_with_def text_message_def interrupted_world_def)

text \<open>
  Claim C2, amended. In a run that reaches the loop the report is printed exactly when
  \<open>start_cloning\<close> returns; it does so, with exit code 0, whenever no call is interrupted
  and the disconnect succeeds, whatever the sends answer. Otherwise \<open>main\<close> ends with
  exit code 1 or 130 and prints no report. The client is disconnected in either case.
\<close>

theorem report_printed_iff_returned:
  assumes "reaches_loop cfg w"
  shows "(report_printed (snd (main cfg w))
            \<longleftrightarrow> (\<exists>st. fst (start_cloning cfg w (new_cloner\<lparr>printed := [Banner]\<rparr>)) = Inr st))
       \<and> (uninterrupted w \<and> disconnect_error w = None \<longrightarrow>
            report_printed (snd (main cfg w)) \<and> fst (main cfg w) = 0)
       \<and> (\<not> report_printed (snd (main cfg w)) \<longrightarrow> fst (main cfg w) = 1 \<or> fst (main cfg w) = 130)
       \<and> disconnected (snd (start_cloning cfg w (new_cloner\<lparr>printed := [Banner]\<rparr>)))"
proof -
  have normal: "report_printed (snd (main cfg w)) \<and> fst (main cfg w) = 0"
    if u: "uninterrupted w" and d: "disconnect_error w = None"
  proof -
    obtain st where "fst (start_cloning cfg w (new_cloner\<lparr>printed := [Banner]\<rparr>)) = Inr st"
      using start_cloning_normal [OF assms u d] by blast
    then show ?thesis
      by (simp add: main_report_iff main_exit_code)
  qed
  have abnormal: "fst (main cfg w) = 1 \<or> fst (main cfg w) = 130"
    if "\<not> report_printed (snd (main cfg w))"
    using that by (auto simp: main_report_iff main_exit_code split: sum.splits)
  show ?thesis
    using normal abnormal main_report_iff [of cfg w] by simp
qed

theorem report_printed_iff_returned_witness:
  "reaches_loop plain_config album_world \<and> uninterrupted album_world
   \<and> disconnect_error album_world = None
   \<and> report_printed (snd (main plain_config album_world))
   \<and> fst (main plain_config album_world) = 0"
proof -
  have r: "reaches_loop plain_config album_world"
    by (simp add: reaches_loop_def eval_defs plain_config_def world_with_def text_message_def album_world_def album_message_def)
  have u: "uninterrupted album_world" and d: "disconnect_error album_world = None"
    by (simp_all add: uninterrupted_def plain_config_def world_with_def text_message_def album_world_def album_message_def)
  show ?thesis
    using r u d report_printed_iff_returned [OF r] by blast
qed

text \<open>
  Claim C10. No step changes the counter \<open>albums\<close>: \<open>start_cloning\<close> leaves it as it
  finds it, and a report printed by \<open>main\<close> shows 0 albums.
\<close>

theorem albums_never_counted:
  "albums (stats (snd (start_cloning cfg w s))) = albums (stats s)
   \<and> (\<forall>st. Report st \<in> set (snd (main cfg w)) \<longrightarrow> albums st = 0)"
proof -
  let ?run = "start_cloning cfg w (new_cloner\<lparr>printed := [Banner]\<rparr>)"
  have "albums st = 0" if "Report st \<in> set (snd (main cfg w))" for st
  proof -
    have no: "\<not> report_printed (printed (snd ?run))"
      by (simp only: start_cloning_frame) (simp add: report_printed_def new_cloner_def)
    have "Report st \<notin> set (printed (snd ?run))"
      using no by (auto simp: report_printed_def list_ex_iff)
    then have "fst ?run = Inr st"
      using that by (auto simp: main_def split_beta split: sum.splits exn.splits)
    then have "st = stats (snd ?run)"
      by (rule start_cloning_returns_stats)
    then show ?thesis
      by (simp add: new_cloner_def zero_stats_def)
  qed
  then show ?thesis
    by simp
qed

theorem albums_never_counted_witness:
  "Report (zero_stats\<lparr>total_msgs := 3, cloned := 1, skipped := 2, text_only := 1\<rparr>)
     \<in> set (snd (main plain_config album_world))
   \<and> albums (zero_stats\<lparr>total_msgs := 3, cloned := 1, skipped := 2, text_only := 1\<rparr>) = 0"
proof -
  have printed: "Report (zero_stats\<lparr>total_msgs := 3, cloned := 1, skipped := 2, text_only := 1\<rparr>)
      \<in> set (snd (main plain_config album_world))"
    by (simp add: eval_defs plain_config_def world_with_def text_message_def album_world_def album_message_def)
  show ?thesis
    using printed albums_never_counted [of plain_config album_world new_cloner] by blast
qed

section \<open>The send step when its first send succeeds\<close>

lemma send_step_first_success:
  assumes "send_result w (length (sent s)) = Inr v"
      and "entity_result w (n_lookups s) \<noteq> Inl KeyboardInterrupt"
  shows "fst (send_step cfg w m t file s) = Inr (Bound v)
       \<and> (\<exists>rq. sent (snd (send_step cfg w m t file s)) = sent s @ [(rq, Inr v)]
               \<and> (req_text rq = t \<or> req_text rq = forwarded_text t)
               \<and> req_file rq = file \<and> req_reply_to rq = resolve_reply s m
               \<and> req_poll rq = None \<and> req_contact rq = None)
       \<and> cloned (stats (snd (send_step cfg w m t file s))) = cloned (stats s)
       \<and> failed (stats (snd (send_step cfg w m t file s))) = failed (stats s)"
  using assms
  by (auto simp: send_step_def forward_send_def forward_with_entity_def regular_send_def
      world_defs bump_def plain_request_def Let_def is_Exception_iff
      split: option.splits sum.splits)

section \<open>The poll fallback\<close>

lemma option_lines_extend:
  "\<exists>r. foldl (\<lambda>acc option. acc @ sep @ option) acc opts = acc @ r"
proof (induction opts arbitrary: acc)
  case Nil
  then show ?case by simp
next
  case (Cons opt opts)
  obtain r where "foldl (\<lambda>acc option. acc @ sep @ option) (acc @ sep @ opt) opts = (acc @ sep @ opt) @ r"
    using Cons.IH by blast
  then show ?case by simp
qed

lemma option_lines_contain:
  "opt \<in> set opts \<Longrightarrow> sublist opt (foldl (\<lambda>acc option. acc @ sep @ option) acc opts)"
proof (induction opts arbitrary: acc)
  case Nil
  then show ?case by simp
next
  case (Cons x opts)
  show ?case
  proof (cases "opt = x")
    case True
    obtain r where "foldl (\<lambda>acc option. acc @ sep @ option) (acc @ sep @ x) opts = (acc @ sep @ x) @ r"
      using option_lines_extend by blast
    then have "foldl (\<lambda>acc option. acc @ sep @ option) acc (x # opts) = (acc @ sep) @ opt @ r"
      using True by simp
    then show ?thesis
      by (metis sublist_appendI)
  next
    case False
    then show ?thesis
      using Cons by simp
  qed
qed

lemma poll_fallback_text_question: "sublist (question p) (poll_fallback_text t p)"
proof -
  obtain r where "poll_fallback_text t p = (t @ ''\<newline>\<newline>Poll: '' @ question p) @ r"
    unfolding poll_fallback_text_def using option_lines_extend by blast
  then have "poll_fallback_text t p = (t @ ''\<newline>\<newline>Poll: '') @ question p @ r"
    by simp
  then show ?thesis
    by (metis sublist_appendI)
qed

lemma poll_fallback_text_option:
  "opt \<in> set (answers p) \<Longrightarrow> sublist opt (poll_fallback_text t p)"
  unfolding poll_fallback_text_def by (rule option_lines_contain)

lemma sublist_forwarded_text: "sublist x t \<Longrightarrow> sublist x (forwarded_text t)"
  unfolding forwarded_text_def sublist_def by (metis append.assoc)

lemma handle_media_poll_fails:
  assumes "media m = Some (MessageMediaPoll p)"
      and "send_result w (length (sent s)) = Inl e" and "is_Exception e"
  shows "handle_media w m t s =
           (Inr (Proceed (poll_fallback_text t p) None),
            (bump polls_update s)\<lparr>sent := sent s @
               [((plain_request (if t \<noteq> [] then t else question p) None None)\<lparr>req_poll := Some p\<rparr>,
                 Inl e)]\<rparr>)"
  using assms by (simp add: handle_media_def clone_poll_def world_defs bump_def)

text \<open>What \<open>dispatch\<close> does with a poll whose send fails and whose next send succeeds.\<close>

lemma dispatch_poll_fallback:
  assumes poll: "media m = Some (MessageMediaPoll p)"
      and fails: "send_result w (length (sent s)) = Inl e" "is_Exception e"
      and lookup: "entity_result w (n_lookups s) \<noteq> Inl KeyboardInterrupt"
      and succeeds: "send_result w (Suc (length (sent s))) = Inr new_id"
  shows "fst (dispatch cfg w s m) = Inr (Some new_id)
       \<and> (\<exists>rq1 rq2. sent (snd (dispatch cfg w s m)) = sent s @ [(rq1, Inl e), (rq2, Inr new_id)]
             \<and> req_poll rq1 = Some p \<and> req_poll rq2 = None \<and> req_file rq2 = None
             \<and> sublist (question p) (req_text rq2)
             \<and> (\<forall>opt \<in> set (answers p). sublist opt (req_text rq2)))
       \<and> cloned (stats (snd (dispatch cfg w s m))) = cloned (stats s) + 1
       \<and> failed (stats (snd (dispatch cfg w s m))) = failed (stats s)
       \<and> message_map (snd (dispatch cfg w s m)) (msg_id m) = Some new_id"
proof -
  define t where "t = add_source_link cfg (source_entity s) (msg_id m) (transform_text cfg (msg_text m))"
  define t' where "t' = poll_fallback_text t p"
  define rq1 where "rq1 = (plain_request (if t \<noteq> [] then t else question p) None None)\<lparr>req_poll := Some p\<rparr>"
  have media: "handle_media w m t s =
      (Inr (Proceed t' None), (bump polls_update s)\<lparr>sent := sent s @ [(rq1, Inl e)]\<rparr>)"
    using handle_media_poll_fails [OF poll fails] unfolding t'_def rq1_def by blast
  have rq1: "req_poll rq1 = Some p"
    by (simp add: rq1_def)
  define s1 where "s1 = (bump polls_update s)\<lparr>sent := sent s @ [(rq1, Inl e)]\<rparr>"
  have s1: "send_result w (length (sent s1)) = Inr new_id" "entity_result w (n_lookups s1) \<noteq> Inl KeyboardInterrupt"
    using succeeds lookup by (simp_all add: s1_def bump_def)
  define s2 where "s2 = snd (send_step cfg w m t' None s1)"
  obtain rq2 where step: "fst (send_step cfg w m t' None s1) = Inr (Bound new_id)"
    and sent2: "sent s2 = sent s1 @ [(rq2, Inr new_id)]"
    and text2: "req_text rq2 = t' \<or> req_text rq2 = forwarded_text t'"
    and rest2: "req_file rq2 = None" "req_poll rq2 = None"
    and stats2: "cloned (stats s2) = cloned (stats s1)" "failed (stats s2) = failed (stats s1)"
    using send_step_first_success [OF s1, of cfg m t' None] unfolding s2_def by blast
  have step': "send_step cfg w m t' None s1 = (Inr (Bound new_id), s2)"
    using step by (simp add: s2_def prod_eq_iff)
  have result: "dispatch cfg w s m = (Inr (Some new_id), record_clone m new_id s2)"
    using media step' by (simp add: dispatch_def t_def s1_def bookkeeping_def remove_file_def)
  have carried: "sublist x (req_text rq2)" if "sublist x t'" for x
    using text2 that sublist_forwarded_text [of x t'] by auto
  have contains: "sublist (question p) (req_text rq2)"
    "\<forall>opt \<in> set (answers p). sublist opt (req_text rq2)"
    using carried poll_fallback_text_question [of p t] poll_fallback_text_option [of _ p t]
    by (simp_all add: t'_def)
  have "sent (snd (dispatch cfg w s m)) = sent s @ [(rq1, Inl e), (rq2, Inr new_id)]"
    using sent2 by (simp add: result record_clone_def bump_def s1_def)
  moreover have "cloned (stats (snd (dispatch cfg w s m))) = cloned (stats s) + 1"
    "failed (stats (snd (dispatch cfg w s m))) = failed (stats s)"
    "message_map (snd (dispatch cfg w s m)) (msg_id m) = Some new_id"
    using stats2 by (simp_all add: result record_clone_def bump_def s1_def)
  ultimately show ?thesis
    using result rq1 rest2 contains by auto
qed

lemma process_body_admitted:
  assumes "msg_id m \<notin> processed_messages_ids s"
      and "\<forall>g. album_id m = Some g \<longrightarrow> g \<notin> seen_album_ids s"
  shows "process_body cfg w s m = dispatch cfg w (admitted m s) m"
  using assms by (auto simp: process_body_def admitted_def Let_def split: option.splits)

lemma process_message_returns:
  "fst (process_body cfg w s m) = Inr r \<Longrightarrow> process_message cfg w s m = process_body cfg w s m"
  by (simp add: process_message_eq split_beta prod_eq_iff)

text \<open>
  Claim C3. A poll that passes the guards, whose native send raises an exception and
  whose next send succeeds, is sent a second time without the poll, with a text that
  contains the question and every option; the message is returned as cloned with the
  new id, \<open>cloned\<close> is one more and \<open>failed\<close> is as before.
\<close>

theorem poll_fallback_clones:
  assumes "media m = Some (MessageMediaPoll p)"
      and "msg_id m \<notin> processed_messages_ids s"
      and "\<forall>g. album_id m = Some g \<longrightarrow> g \<notin> seen_album_ids s"
      and "send_result w (length (sent s)) = Inl e" and "is_Exception e"
      and "entity_result w (n_lookups s) \<noteq> Inl KeyboardInterrupt"
      and "send_result w (Suc (length (sent s))) = Inr new_id"
  shows "fst (process_message cfg w s m) = Inr (Some new_id)
       \<and> (\<exists>rq1 rq2. sent (snd (process_message cfg w s m)) = sent s @ [(rq1, Inl e), (rq2, Inr new_id)]
             \<and> req_poll rq1 = Some p \<and> req_poll rq2 = None \<and> req_file rq2 = None
             \<and> sublist (question p) (req_text rq2)
             \<and> (\<forall>opt \<in> set (answers p). sublist opt (req_text rq2)))
       \<and> cloned (stats (snd (process_message cfg w s m))) = cloned (stats s) + 1
       \<and> failed (stats (snd (process_message cfg w s m))) = failed (stats s)
       \<and> message_map (snd (process_message cfg w s m)) (msg_id m) = Some new_id"
proof -
  have body: "process_body cfg w s m = dispatch cfg w (admitted m s) m"
    using assms(2,3) by (rule process_body_admitted)
  have same: "sent (admitted m s) = sent s" "n_lookups (admitted m s) = n_lookups s"
    "stats (admitted m s) = stats s"
    by (simp_all add: admitted_def)
  note fallback = dispatch_poll_fallback [of m p w "admitted m s" e new_id cfg,
      unfolded same, OF assms(1) assms(4) assms(5) assms(6) assms(7)]
  have "process_message cfg w s m = dispatch cfg w (admitted m s) m"
    using process_message_returns [of cfg w s m "Some new_id"] body fallback by simp
  then show ?thesis
    using fallback by simp
qed

theorem poll_fallback_clones_witness:
  "media (poll_message 1 lunch_poll) = Some (MessageMediaPoll lunch_poll)
   \<and> msg_id (poll_message 1 lunch_poll) \<notin> processed_messages_ids new_cloner
   \<and> album_id (poll_message 1 lunch_poll) = None
   \<and> send_result (first_send_fails OtherError) (length (sent new_cloner)) = Inl OtherError
   \<and> is_Exception OtherError
   \<and> entity_result (first_send_fails OtherError) (n_lookups new_cloner) \<noteq> Inl KeyboardInterrupt
   \<and> send_result (first_send_fails OtherError) (Suc (length (sent new_cloner))) = Inr 101
   \<and> fst (process_message plain_config (first_send_fails OtherError) new_cloner (poll_message 1 lunch_poll))
        = Inr (Some 101)
   \<and> cloned (stats (snd (process_message plain_config (first_send_fails OtherError) new_cloner
        (poll_message 1 lunch_poll)))) = cloned (stats new_cloner) + 1
   \<and> failed (stats (snd (process_message plain_config (first_send_fails OtherError) new_cloner
        (poll_message 1 lunch_poll)))) = failed (stats new_cloner)"
proof -
  have h1: "media (poll_message 1 lunch_poll) = Some (MessageMediaPoll lunch_poll)"
    and h2: "msg_id (poll_message 1 lunch_poll) \<notin> processed_messages_ids new_cloner"
    and h3: "album_id (poll_message 1 lunch_poll) = None"
    and h4: "send_result (first_send_fails OtherError) (length (sent new_cloner)) = Inl OtherError"
    and h5: "is_Exception OtherError"
    and h6: "entity_result (first_send_fails OtherError) (n_lookups new_cloner) \<noteq> Inl KeyboardInterrupt"
    and h7: "send_result (first_send_fails OtherError) (Suc (length (sent new_cloner))) = Inr 101"
    by (simp_all add: world_with_def text_message_def poll_message_def lunch_poll_def
      first_send_fails_def new_cloner_def album_id_def)
  show ?thesis
    using h1 h2 h3 h4 h5 h6 h7 poll_fallback_clones [OF h1 h2 _ h4 h5 h6 h7, of plain_config]
    by simp
qed

section \<open>The classification of documents\<close>

lemma classify_attrs_first_match:
  "classify_attrs attributes s = bump (kind_counter (first_matching_kind attributes)) s"
  by (induction attributes) (simp_all split: doc_attr.splits)

lemma bump_kind_counts_one:
  "document_counters (stats (bump (kind_counter k) s)) = document_counters (stats s) + 1"
  by (cases k) (simp_all add: bump_def document_counters_def)

text \<open>
  Claim C7, as stated, fails for a document whose attribute list is empty: it is cloned,
  and none of the six counters of document kinds moves, \<open>files\<close> included.
\<close>

theorem empty_attributes_counterexample:
  "fst (process_message plain_config all_succeed new_cloner (document_message 1 [])) = Inr (Some 100)
   \<and> files (stats (snd (process_message plain_config all_succeed new_cloner (document_message 1 [])))) = 0
   \<and> document_counters (stats (snd (process_message plain_config all_succeed new_cloner
        (document_message 1 [])))) = 0"
  by (simp add: eval_defs plain_config_def world_with_def text_message_def all_succeed_def
      document_message_def document_counters_def)

text \<open>
  Claim C7, amended. For a document whose attribute list is not empty, the counter of
  the first attribute that stands for a kind is incremented, the counter \<open>files\<close> when
  there is none, and this is the one increment among the six counters; for an empty
  attribute list nothing is counted. The media step applies this classification to
  every document whose download does not raise.
\<close>

theorem document_classification:
  "(attributes \<noteq> [] \<longrightarrow>
      classify_document attributes s = bump (kind_counter (first_matching_kind attributes)) s
      \<and> document_counters (stats (classify_document attributes s)) = document_counters (stats s) + 1)
   \<and> classify_document [] s = s
   \<and> (media m = Some (MessageMediaDocument attributes) \<and> download_result w (n_downloads s) = Inr file \<longrightarrow>
        handle_media w m t s =
          (Inr (Proceed t file), classify_document attributes (s\<lparr>n_downloads := n_downloads s + 1\<rparr>)))"
  by (simp add: classify_document_def classify_attrs_first_match bump_kind_counts_one
      handle_media_def world_defs)

theorem document_classification_witness:
  "[DocumentAttributeOther, DocumentAttributeAudio True, DocumentAttributeVideo] \<noteq> []
   \<and> media (document_message 1 [DocumentAttributeOther, DocumentAttributeAudio True, DocumentAttributeVideo])
        = Some (MessageMediaDocument [DocumentAttributeOther, DocumentAttributeAudio True, DocumentAttributeVideo])
   \<and> download_result all_succeed (n_downloads new_cloner) = Inr (Some ''downloads/file'')
   \<and> classify_document [DocumentAttributeOther, DocumentAttributeAudio True, DocumentAttributeVideo] new_cloner
        = bump voices_update new_cloner
   \<and> document_counters (stats (classify_document
        [DocumentAttributeOther, DocumentAttributeAudio True, DocumentAttributeVideo] new_cloner))
        = document_counters (stats new_cloner) + 1"
proof -
  let ?attrs = "[DocumentAttributeOther, DocumentAttributeAudio True, DocumentAttributeVideo]"
  have h1: "?attrs \<noteq> []"
    and h2: "media (document_message 1 ?attrs) = Some (MessageMediaDocument ?attrs)"
    and h3: "download_result all_succeed (n_downloads new_cloner) = Inr (Some ''downloads/file'')"
    and k: "kind_counter (first_matching_kind ?attrs) = voices_update"
    by (simp_all add: world_with_def text_message_def all_succeed_def document_message_def)
  show ?thesis
    using h1 h2 h3 k
      document_classification [of ?attrs new_cloner "document_message 1 ?attrs" all_succeed
        "Some ''downloads/file''" "[]"]
    by metis
qed

section \<open>Rate limits\<close>

text \<open>
  Claim C1 on two inputs. A text message whose send raises the flood wait of 3 seconds:
  the handler of line 396 catches it, nothing waits, nothing is sent again, and the
  message counts as failed. A forwarded message whose two sends raise it: the second
  reaches the handler of line 422, which waits and calls \<open>process_message\<close> again, and
  that call returns at the guard of line 206; the message is neither cloned nor failed,
  although the next send would have succeeded.
\<close>

theorem rate_limit_retry_lost:
  "process_message plain_config (first_send_fails (FloodWaitError 3)) new_cloner (text_message 1 ''hi'')
     = (Inr None,
        new_cloner\<lparr>processed_messages_ids := {1}, stats := zero_stats\<lparr>failed := 1\<rparr>,
          sent := [(plain_request ''hi'' None None, Inl (FloodWaitError 3))]\<rparr>)
   \<and> process_message plain_config (first_two_sends_fail (FloodWaitError 3)) new_cloner
        (forwarded_message 1 ''hi'')
     = (Inr None,
        new_cloner\<lparr>processed_messages_ids := {1}, stats := zero_stats\<lparr>forwards := 1\<rparr>,
          sent := [(plain_request (forwarded_text ''hi'') None None, Inl (FloodWaitError 3)),
                   (plain_request (forwarded_text ''hi'') None None, Inl (FloodWaitError 3))],
          slept := [3]\<rparr>)
   \<and> send_result (first_send_fails (FloodWaitError 3)) 1 = Inr 101
   \<and> send_result (first_two_sends_fail (FloodWaitError 3)) 2 = Inr 102"
  by (simp add: eval_defs plain_config_def world_with_def text_message_def first_send_fails_def
      first_two_sends_fail_def forwarded_message_def Let_def)

section \<open>Replies\<close>

lemma send_message_reply:
  "\<forall>e \<in> set (new_sends s (snd (send_message w rq s))). req_reply_to (fst e) = req_reply_to rq"
  by (simp add: new_sends_def send_message_def)

lemma forward_send_replies:
  "\<forall>e \<in> set (new_sends s (snd (forward_send w fwd t file reply s))). req_reply_to (fst e) = reply"
  by (simp add: new_sends_def forward_send_def forward_with_entity_def world_defs bump_def
      plain_request_def split: option.splits sum.splits)

lemma regular_send_replies:
  "\<forall>e \<in> set (new_sends s (snd (regular_send w m t file reply s))). req_reply_to (fst e) = reply"
  by (simp add: new_sends_def regular_send_def world_defs bump_def plain_request_def
      split: sum.splits)

text \<open>Every send of the send step carries the reply target that the map gives.\<close>

lemma send_step_replies:
  "\<forall>e \<in> set (new_sends s (snd (send_step cfg w m t file s))).
     req_reply_to (fst e) = resolve_reply s m"
  using forward_send_replies [of s w _ t "file" "resolve_reply s m"]
    regular_send_replies [of s w m t "file" "resolve_reply s m"]
  by (simp add: send_step_def Let_def split_beta split: option.splits sum.splits)

text \<open>
  Claim C4 on one input. Message 1 was cloned as 100. A poll that replies to message 1
  is sent as a poll without a reply target; a text that replies to message 1 is sent as a
  reply to 100.
\<close>

theorem native_poll_drops_reply:
  "message_map after_first_clone 1 = Some 100
   \<and> resolve_reply after_first_clone poll_reply = Some 100
   \<and> fst (process_message plain_config all_succeed after_first_clone poll_reply) = Inr (Some 101)
   \<and> map (\<lambda>e. req_reply_to (fst e))
        (new_sends after_first_clone (snd (process_message plain_config all_succeed after_first_clone poll_reply)))
       = [None]
   \<and> map (\<lambda>e. req_reply_to (fst e))
        (new_sends after_first_clone (snd (process_message plain_config all_succeed after_first_clone text_reply)))
       = [Some 100]"
  by (simp add: eval_defs plain_config_def world_with_def text_message_def all_succeed_def
      after_first_clone_def poll_message_def lunch_poll_def poll_reply_def text_reply_def new_sends_def Let_def)

section \<open>The log of sends and the map\<close>

lemma successes_simps [simp]:
  "successes [] = []"
  "successes ((rq, r) # es) = (case r of Inl e \<Rightarrow> successes es | Inr v \<Rightarrow> v # successes es)"
  "successes (es @ es') = successes es @ successes es'"
  by (simp_all add: successes_def split: sum.splits)

lemma new_sends_same: "sent s' = sent s \<Longrightarrow> new_sends s s' = []"
  by (simp add: new_sends_def)

lemma new_sends_append:
  assumes "sent s1 = sent s @ new_sends s s1" and "sent s2 = sent s1 @ new_sends s1 s2"
  shows "new_sends s s2 = new_sends s s1 @ new_sends s1 s2"
    and "sent s2 = sent s @ new_sends s s2"
proof -
  define a where "a = new_sends s s1"
  define b where "b = new_sends s1 s2"
  have "sent s1 = sent s @ a" and "sent s2 = sent s1 @ b"
    unfolding a_def b_def by (rule assms)+
  then have whole: "sent s2 = sent s @ (a @ b)"
    by simp
  have "drop (length (sent s)) (sent s2) = a @ b"
    by (simp add: whole)
  then show "new_sends s s2 = new_sends s s1 @ new_sends s1 s2"
    by (simp add: new_sends_def a_def b_def)
  then show "sent s2 = sent s @ new_sends s s2"
    using whole by (simp add: a_def b_def)
qed

lemma handle_media_log:
  "sent (snd (handle_media w m t s)) = sent s @ new_sends s (snd (handle_media w m t s))"
  "successes (new_sends s (snd (handle_media w m t s))) =
     (case fst (handle_media w m t s) of Inr (Returned v) \<Rightarrow> [v] | _ \<Rightarrow> [])"
  "message_map (snd (handle_media w m t s)) =
     (case fst (handle_media w m t s) of
        Inr (Returned v) \<Rightarrow> (message_map s)(msg_id m \<mapsto> v)
      | _ \<Rightarrow> message_map s)"
  by (simp_all add: new_sends_def handle_media_def clone_poll_def clone_contact_def world_defs
      book_defs classify_document_def split: option.splits media.splits sum.splits)

lemma send_message_log:
  "sent (snd (send_message w rq s)) = sent s @ new_sends s (snd (send_message w rq s))"
  "successes (new_sends s (snd (send_message w rq s))) =
     (case fst (send_message w rq s) of Inl e \<Rightarrow> [] | Inr v \<Rightarrow> [v])"
  by (simp_all add: new_sends_def send_message_def split: sum.splits)

lemma forward_with_entity_log:
  "sent (snd (forward_with_entity w fwd t fl reply s))
     = sent s @ new_sends s (snd (forward_with_entity w fwd t fl reply s))"
  "successes (new_sends s (snd (forward_with_entity w fwd t fl reply s))) =
     (case fst (forward_with_entity w fwd t fl reply s) of Inl e \<Rightarrow> [] | Inr v \<Rightarrow> [v])"
  by (simp_all add: new_sends_def forward_with_entity_def world_defs split: sum.splits)

text \<open>A send after a step that failed: the log of both is the log of the step followed
  by the send, and a success can only be the one of the send.\<close>

lemma send_after_failure_log:
  assumes "sent s1 = sent s @ new_sends s s1" and "successes (new_sends s s1) = []"
  shows "sent (snd (send_message w rq s1)) = sent s @ new_sends s (snd (send_message w rq s1))"
    and "successes (new_sends s (snd (send_message w rq s1))) =
           (case fst (send_message w rq s1) of Inl e \<Rightarrow> [] | Inr v \<Rightarrow> [v])"
  using new_sends_append [OF assms(1) send_message_log(1) [of w rq s1]] assms(2)
    send_message_log(2) [of s1 w rq]
  by simp_all

lemma forward_send_log:
  "sent (snd (forward_send w fwd t fl reply s))
     = sent s @ new_sends s (snd (forward_send w fwd t fl reply s))"
  "successes (new_sends s (snd (forward_send w fwd t fl reply s))) =
     (case fst (forward_send w fwd t fl reply s) of Inl e \<Rightarrow> [] | Inr v \<Rightarrow> [v])"
proof -
  define s0 where "s0 = bump forwards_update s"
  define first where "first =
    (case from_id fwd of
       Some peer \<Rightarrow> forward_with_entity w fwd t fl reply s0
     | None \<Rightarrow> send_message w (plain_request (forwarded_text t) fl reply) s0)"
  have same: "sent s0 = sent s"
    by (simp add: s0_def bump_def)
  have from_s: "new_sends s s' = new_sends s0 s'" for s'
    by (simp add: new_sends_def same)
  have first_log: "sent (snd first) = sent s @ new_sends s (snd first)"
    "successes (new_sends s (snd first)) = (case fst first of Inl e \<Rightarrow> [] | Inr v \<Rightarrow> [v])"
    unfolding from_s same [symmetric] first_def
    by (simp_all add: forward_with_entity_log send_message_log split: option.splits)
  have whole: "forward_send w fwd t fl reply s =
    (case fst first of
       Inr new_id \<Rightarrow> first
     | Inl e \<Rightarrow>
         if is_Exception e then send_message w (plain_request (forwarded_text t) fl reply) (snd first)
         else first)"
    by (simp add: forward_send_def first_def s0_def split_beta prod_eq_iff
        split: sum.splits option.splits)
  show "sent (snd (forward_send w fwd t fl reply s))
     = sent s @ new_sends s (snd (forward_send w fwd t fl reply s))"
    using first_log send_after_failure_log(1) [OF first_log(1)]
    by (simp add: whole split: sum.splits)
  show "successes (new_sends s (snd (forward_send w fwd t fl reply s))) =
     (case fst (forward_send w fwd t fl reply s) of Inl e \<Rightarrow> [] | Inr v \<Rightarrow> [v])"
    using first_log send_after_failure_log(2) [OF first_log(1)]
    by (simp add: whole split: sum.splits)
qed

lemma regular_send_log:
  "sent (snd (regular_send w m t fl reply s))
     = sent s @ new_sends s (snd (regular_send w m t fl reply s))"
  "successes (new_sends s (snd (regular_send w m t fl reply s))) =
     (case fst (regular_send w m t fl reply s) of Inr (Bound v) \<Rightarrow> [v] | _ \<Rightarrow> [])"
  by (simp_all add: new_sends_def regular_send_def world_defs bump_def split: sum.splits)

lemma send_step_log:
  "sent (snd (send_step cfg w m t fl s)) = sent s @ new_sends s (snd (send_step cfg w m t fl s))"
  "successes (new_sends s (snd (send_step cfg w m t fl s))) =
     (case fst (send_step cfg w m t fl s) of Inr (Bound v) \<Rightarrow> [v] | _ \<Rightarrow> [])"
  by (simp_all add: send_step_def Let_def split_beta forward_send_log regular_send_log
      split: option.splits sum.splits)

lemma bookkeeping_map:
  "message_map (snd (bookkeeping w m file outcome s)) =
     (case outcome of Bound v \<Rightarrow> (message_map s)(msg_id m \<mapsto> v) | _ \<Rightarrow> message_map s)"
  by (simp add: bookkeeping_def book_defs split: send_outcome.splits option.splits)

lemma clone_effect_dispatch: "clone_effect m s (snd (dispatch cfg w s m))"
proof -
  define t where "t = add_source_link cfg (source_entity s) (msg_id m) (transform_text cfg (msg_text m))"
  obtain r1 s1 where media: "handle_media w m t s = (r1, s1)"
    by (cases "handle_media w m t s")
  note log1 = handle_media_log [where w = w and m = m and t = t and s = s, unfolded media, simplified]
  show ?thesis
  proof (cases r1)
    case (Inl e)
    then show ?thesis
      using media log1 by (simp add: dispatch_def t_def clone_effect_def)
  next
    case (Inr outcome1)
    show ?thesis
    proof (cases outcome1)
      case (Returned v)
      then show ?thesis
        using media log1 Inr by (simp add: dispatch_def t_def clone_effect_def)
    next
      case (Proceed t' file')
      obtain r2 s2 where step: "send_step cfg w m t' file' s1 = (r2, s2)"
        by (cases "send_step cfg w m t' file' s1")
      note log2 = send_step_log [where cfg = cfg and w = w and m = m and t = t' and fl = file' and s = s1,
          unfolded step, simplified]
      have map2: "message_map s2 = message_map s1"
        using send_step_frame(7) [of cfg w m t' file' s1] step by simp
      have all: "new_sends s s2 = new_sends s s1 @ new_sends s1 s2"
        "sent s2 = sent s @ new_sends s s2"
        using new_sends_append [of s1 s s2] log1(1) log2(1) by simp_all
      have none1: "successes (new_sends s s1) = []" "message_map s1 = message_map s"
        using log1 Inr Proceed by simp_all
      show ?thesis
      proof (cases r2)
        case (Inl e)
        then show ?thesis
          using media Inr Proceed step all none1 log2 map2
          by (simp add: dispatch_def t_def clone_effect_def)
      next
        case inr: (Inr outcome2)
        have sent3: "sent (snd (bookkeeping w m file' outcome2 s2)) = sent s2"
          by simp
        have news: "new_sends s (snd (bookkeeping w m file' outcome2 s2)) = new_sends s s2"
          by (simp add: new_sends_def)
        have result: "snd (dispatch cfg w s m) = snd (bookkeeping w m file' outcome2 s2)"
          using media Inr Proceed step inr by (simp add: dispatch_def t_def)
        show ?thesis
          unfolding result clone_effect_def news bookkeeping_map sent3
          using all none1 log2 map2 inr by (cases outcome2) simp_all
      qed
    qed
  qed
qed

lemma clone_effect_same:
  "sent s' = sent s \<Longrightarrow> message_map s' = message_map s \<Longrightarrow> clone_effect m s s'"
  by (simp add: clone_effect_def new_sends_same)

lemma clone_effect_from:
  "sent s0 = sent s \<Longrightarrow> message_map s0 = message_map s \<Longrightarrow> clone_effect m s0 s' \<Longrightarrow> clone_effect m s s'"
  by (simp add: clone_effect_def new_sends_def split: list.splits)

lemma clone_effect_to:
  "sent s1 = sent s' \<Longrightarrow> message_map s1 = message_map s' \<Longrightarrow> clone_effect m s s' \<Longrightarrow> clone_effect m s s1"
  by (simp add: clone_effect_def new_sends_def)

lemma clone_effect_process_body: "clone_effect m s (snd (process_body cfg w s m))"
proof -
  have "clone_effect m s (snd (dispatch cfg w s0 m))"
    if "sent s0 = sent s" and "message_map s0 = message_map s" for s0
    using that clone_effect_dispatch [of m s0 cfg w] by (rule clone_effect_from)
  then show ?thesis
    by (simp add: process_body_def Let_def clone_effect_same bump_def split: option.splits)
qed

lemma clone_effect_process_message: "clone_effect m s (snd (process_message cfg w s m))"
proof -
  have "sent (snd (process_message cfg w s m)) = sent (snd (process_body cfg w s m))"
    "message_map (snd (process_message cfg w s m)) = message_map (snd (process_body cfg w s m))"
    by (simp_all add: process_message_eq split_beta bump_def sleep_def split: sum.splits exn.splits)
  then show ?thesis
    using clone_effect_process_body [of m s cfg w] by (rule clone_effect_to)
qed

lemma process_message_unmarked_only:
  "msg_id m \<in> processed_messages_ids s \<Longrightarrow>
     successes (new_sends s (snd (process_message cfg w s m))) = []"
  by (simp add: process_message_marked new_sends_same)

section \<open>The duplicate guard\<close>

text \<open>
  Claim C6. After \<open>process_message\<close> ran for a message, a second call for a message
  with the same id, whatever the configuration and the world, returns \<open>None\<close> and
  leaves the state as it is, so it sends nothing; and of the sends of the first call at
  most one succeeded.
\<close>

theorem dispatch_idempotent:
  assumes "msg_id m' = msg_id m"
  shows "process_message cfg' w' (snd (process_message cfg w s m)) m'
           = (Inr None, snd (process_message cfg w s m))
       \<and> new_sends (snd (process_message cfg w s m))
            (snd (process_message cfg' w' (snd (process_message cfg w s m)) m')) = []
       \<and> length (successes (new_sends s (snd (process_message cfg w s m)))) \<le> 1"
proof -
  have "msg_id m' \<in> processed_messages_ids (snd (process_message cfg w s m))"
    using assms by (simp add: process_message_processed)
  then have second: "process_message cfg' w' (snd (process_message cfg w s m)) m'
      = (Inr None, snd (process_message cfg w s m))"
    by (rule process_message_marked)
  have "length (successes (new_sends s (snd (process_message cfg w s m)))) \<le> 1"
    using clone_effect_process_message [of m s cfg w] by (simp add: clone_effect_def)
  then show ?thesis
    using second by (simp add: new_sends_same)
qed

theorem dispatch_idempotent_witness:
  "msg_id (text_message 1 ''again'') = msg_id (text_message 1 ''hi'')
   \<and> process_message plain_config all_succeed after_first_clone (text_message 1 ''again'')
        = (Inr None, after_first_clone)
   \<and> successes (new_sends new_cloner after_first_clone) = [100]"
proof -
  have same: "msg_id (text_message 1 ''again'') = msg_id (text_message 1 ''hi'')"
    by (simp add: text_message_def)
  have one: "successes (new_sends new_cloner after_first_clone) = [100]"
    by (simp add: after_first_clone_def eval_defs plain_config_def world_with_def text_message_def
        all_succeed_def new_sends_def Let_def)
  show ?thesis
    using same one
      dispatch_idempotent [OF same, of plain_config all_succeed plain_config all_succeed new_cloner]
    by (simp add: after_first_clone_def)
qed

section \<open>The map from source ids to destination ids\<close>

lemma process_message_map:
  assumes "dom (message_map s) \<subseteq> processed_messages_ids s"
  shows "message_map s \<subseteq>\<^sub>m message_map (snd (process_message cfg w s m))"
    and "dom (message_map (snd (process_message cfg w s m)))
           \<subseteq> processed_messages_ids (snd (process_message cfg w s m))"
proof -
  let ?s' = "snd (process_message cfg w s m)"
  have effect: "message_map ?s' =
      (case successes (new_sends s ?s') of
         [] \<Rightarrow> message_map s
       | v # vs \<Rightarrow> (message_map s)(msg_id m \<mapsto> v))"
    using clone_effect_process_message [of m s cfg w] by (simp add: clone_effect_def)
  show "message_map s \<subseteq>\<^sub>m message_map ?s'"
  proof (cases "successes (new_sends s ?s')")
    case Nil
    then show ?thesis
      using effect by simp
  next
    case (Cons v vs)
    then have "msg_id m \<notin> processed_messages_ids s"
      using process_message_unmarked_only [of m s cfg w] by auto
    then have "msg_id m \<notin> dom (message_map s)"
      using assms by auto
    then show ?thesis
      using effect Cons by (simp add: map_le_def)
  qed
  show "dom (message_map ?s') \<subseteq> processed_messages_ids ?s'"
    using assms effect
    by (cases "successes (new_sends s ?s')") (auto simp: process_message_processed)
qed

lemma clone_loop_map:
  assumes "dom (message_map s) \<subseteq> processed_messages_ids s"
  shows "message_map s \<subseteq>\<^sub>m message_map (snd (clone_loop cfg w n i msgs s))
       \<and> dom (message_map (snd (clone_loop cfg w n i msgs s)))
           \<subseteq> processed_messages_ids (snd (clone_loop cfg w n i msgs s))"
  using assms
proof (induction msgs arbitrary: i s)
  case Nil
  then show ?case by simp
next
  case (Cons m msgs)
  obtain r s1 where step: "process_message cfg w s m = (r, s1)"
    by (cases "process_message cfg w s m")
  have le1: "message_map s \<subseteq>\<^sub>m message_map s1"
    and inv1: "dom (message_map s1) \<subseteq> processed_messages_ids s1"
    using process_message_map [OF Cons.prems, of cfg w m] step by simp_all
  define s2 where "s2 = (if (i + 1) mod 10 = 0 \<or> i + 1 = n then s1\<lparr>printed := printed s1 @ [Progress (i + 1) n]\<rparr> else s1)"
  have keep: "message_map s2 = message_map s1" "processed_messages_ids s2 = processed_messages_ids s1"
    by (simp_all add: s2_def)
  have inv2: "dom (message_map s2) \<subseteq> processed_messages_ids s2"
    using inv1 keep by simp
  show ?case
  proof (cases r)
    case (Inl e)
    show ?thesis
    proof (cases "is_Exception e")
      case True
      then show ?thesis
        using Cons.IH [OF inv1, of "i + 1"] le1 step Inl
        by (auto intro: map_le_trans)
    next
      case False
      then show ?thesis
        using le1 inv1 step Inl by simp
    qed
  next
    case (Inr x)
    then have "clone_loop cfg w n i (m # msgs) s = clone_loop cfg w n (i + 1) msgs s2"
      using step by (simp add: s2_def)
    then show ?thesis
      using Cons.IH [OF inv2, of "i + 1"] le1 keep
      by (auto intro: map_le_trans)
  qed
qed

text \<open>
  Claim C9. In a state whose mapped ids are all marked as processed, as the new cloner
  is, \<open>process_message\<close> keeps every entry of the map, and so does the whole loop; the
  mapped ids stay marked; the map grows by the id of the message exactly when one of
  its sends succeeded, and then by the id that send returned; so a message that is
  processed and absent from the map had no successful send.
\<close>

theorem message_map_append_only:
  assumes "dom (message_map s) \<subseteq> processed_messages_ids s"
  shows "message_map s \<subseteq>\<^sub>m message_map (snd (process_message cfg w s m))
       \<and> dom (message_map (snd (process_message cfg w s m)))
           \<subseteq> processed_messages_ids (snd (process_message cfg w s m))
       \<and> message_map (snd (process_message cfg w s m)) =
           (case successes (new_sends s (snd (process_message cfg w s m))) of
              [] \<Rightarrow> message_map s
            | v # vs \<Rightarrow> (message_map s)(msg_id m \<mapsto> v))
       \<and> (message_map (snd (process_message cfg w s m)) (msg_id m) = None \<longrightarrow>
            successes (new_sends s (snd (process_message cfg w s m))) = [])
       \<and> message_map s \<subseteq>\<^sub>m message_map (snd (clone_loop cfg w n i msgs s))
       \<and> dom (message_map (snd (clone_loop cfg w n i msgs s)))
           \<subseteq> processed_messages_ids (snd (clone_loop cfg w n i msgs s))"
proof -
  let ?s' = "snd (process_message cfg w s m)"
  have effect: "message_map ?s' =
      (case successes (new_sends s ?s') of
         [] \<Rightarrow> message_map s
       | v # vs \<Rightarrow> (message_map s)(msg_id m \<mapsto> v))"
    using clone_effect_process_message [of m s cfg w] by (simp add: clone_effect_def)
  have absent: "successes (new_sends s ?s') = []" if "message_map ?s' (msg_id m) = None"
    using that effect by (cases "successes (new_sends s ?s')") auto
  show ?thesis
    using process_message_map [OF assms, of cfg w m] clone_loop_map [OF assms, of cfg w n i msgs]
      effect absent
    by blast
qed

theorem message_map_append_only_witness:
  "dom (message_map after_first_clone) \<subseteq> processed_messages_ids after_first_clone
   \<and> message_map after_first_clone 1 = Some 100
   \<and> message_map (snd (process_message plain_config all_succeed after_first_clone text_reply)) 1
        = Some 100
   \<and> message_map after_first_clone
        \<subseteq>\<^sub>m message_map (snd (process_message plain_config all_succeed after_first_clone text_reply))"
proof -
  have inv: "dom (message_map after_first_clone) \<subseteq> processed_messages_ids after_first_clone"
    and one: "message_map after_first_clone 1 = Some 100"
    by (simp_all add: after_first_clone_def eval_defs plain_config_def world_with_def text_message_def
        all_succeed_def Let_def)
  note kept = message_map_append_only [OF inv, of plain_config all_succeed text_reply 0 0 "[]"]
  have le: "message_map after_first_clone
        \<subseteq>\<^sub>m message_map (snd (process_message plain_config all_succeed after_first_clone text_reply))"
    using kept by blast
  then have "message_map (snd (process_message plain_config all_succeed after_first_clone text_reply)) 1
      = Some 100"
    using one by (auto simp: map_le_def dom_def)
  then show ?thesis
    using inv one le by blast
qed

section \<open>Albums\<close>

lemma process_body_seen:
  "msg_id m \<notin> processed_messages_ids s \<Longrightarrow>
     seen_album_ids (snd (process_body cfg w s m)) =
       (case album_id m of None \<Rightarrow> seen_album_ids s | Some g \<Rightarrow> insert g (seen_album_ids s))"
  by (auto simp: process_body_def Let_def bump_def split: option.splits)

lemma process_message_seen:
  "msg_id m \<notin> processed_messages_ids s \<Longrightarrow>
     seen_album_ids (snd (process_message cfg w s m)) =
       (case album_id m of None \<Rightarrow> seen_album_ids s | Some g \<Rightarrow> insert g (seen_album_ids s))"
  using process_body_seen [of m s cfg w]
  by (simp add: process_message_eq split_beta bump_def sleep_def split: sum.splits exn.splits)

text \<open>A message of an album that was seen is skipped, and that is all that happens.\<close>

lemma process_message_skips:
  assumes "msg_id m \<notin> processed_messages_ids s" and "album_id m = Some g"
      and "g \<in> seen_album_ids s"
  shows "process_message cfg w s m =
           (Inr None, bump skipped_update
              (s\<lparr>processed_messages_ids := insert (msg_id m) (processed_messages_ids s)\<rparr>))"
  using assms by (simp add: process_message_eq process_body_def)

text \<open>The loop, when it is not left early, marks all its messages and sees all their
  albums.\<close>

lemma clone_loop_marks:
  assumes "distinct (map msg_id msgs)"
      and "\<forall>x \<in> set msgs. msg_id x \<notin> processed_messages_ids s"
      and "fst (clone_loop cfg w n i msgs s) = None"
  shows "seen_album_ids (snd (clone_loop cfg w n i msgs s))
           = seen_album_ids s \<union> {g. \<exists>x \<in> set msgs. album_id x = Some g}
       \<and> processed_messages_ids (snd (clone_loop cfg w n i msgs s))
           = processed_messages_ids s \<union> msg_id ` set msgs"
  using assms
proof (induction msgs arbitrary: i s)
  case Nil
  then show ?case by simp
next
  case (Cons m msgs)
  obtain r s1 where step: "process_message cfg w s m = (r, s1)"
    by (cases "process_message cfg w s m")
  define s2 where "s2 = (if (i + 1) mod 10 = 0 \<or> i + 1 = n then s1\<lparr>printed := printed s1 @ [Progress (i + 1) n]\<rparr> else s1)"
  have fresh: "msg_id m \<notin> processed_messages_ids s"
    using Cons.prems(2) by simp
  have marked1: "processed_messages_ids s1 = insert (msg_id m) (processed_messages_ids s)"
    using process_message_processed [of cfg w s m] step by simp
  have seen1: "seen_album_ids s1 =
      (case album_id m of None \<Rightarrow> seen_album_ids s | Some g \<Rightarrow> insert g (seen_album_ids s))"
    using process_message_seen [OF fresh, of cfg w] step by simp
  have keep: "seen_album_ids s2 = seen_album_ids s1" "processed_messages_ids s2 = processed_messages_ids s1"
    by (simp_all add: s2_def)
  define s3 where "s3 = (case r of Inl e \<Rightarrow> s1 | Inr x \<Rightarrow> s2)"
  have keep3: "seen_album_ids s3 = seen_album_ids s1" "processed_messages_ids s3 = processed_messages_ids s1"
    using keep by (simp_all add: s3_def split: sum.splits)
  have rest: "clone_loop cfg w n i (m # msgs) s = clone_loop cfg w n (i + 1) msgs s3"
    using Cons.prems(3) step by (auto simp: s2_def s3_def split: sum.splits if_splits)
  have d: "distinct (map msg_id msgs)"
    using Cons.prems(1) by simp
  have f: "\<forall>x \<in> set msgs. msg_id x \<notin> processed_messages_ids s3"
  proof
    fix x
    assume x: "x \<in> set msgs"
    have "msg_id m \<notin> msg_id ` set msgs"
      using Cons.prems(1) by simp
    then have "msg_id x \<noteq> msg_id m"
      using x by (metis imageI)
    moreover have "msg_id x \<notin> processed_messages_ids s"
      using Cons.prems(2) x by simp
    ultimately show "msg_id x \<notin> processed_messages_ids s3"
      by (simp add: keep3 marked1)
  qed
  have n: "fst (clone_loop cfg w n (i + 1) msgs s3) = None"
    using Cons.prems(3) rest by simp
  note ih = Cons.IH [OF d f n]
  show ?case
    unfolding rest using ih keep3 marked1 seen1
    by (auto split: option.splits)
qed

section \<open>A dispatched message is sent\<close>

lemma forward_with_entity_attempts:
  "length (sent s) \<le> length (sent (snd (forward_with_entity w fwd t fl reply s)))"
  "fst (forward_with_entity w fwd t fl reply s) \<noteq> Inl KeyboardInterrupt \<Longrightarrow>
     length (sent s) < length (sent (snd (forward_with_entity w fwd t fl reply s)))"
  by (auto simp: forward_with_entity_def world_defs is_Exception_iff split: sum.splits)

lemma forward_send_attempts:
  assumes "fst (forward_send w fwd t fl reply s) \<noteq> Inl KeyboardInterrupt"
  shows "length (sent s) < length (sent (snd (forward_send w fwd t fl reply s)))"
proof -
  define s0 where "s0 = bump forwards_update s"
  define first where "first =
    (case from_id fwd of
       Some peer \<Rightarrow> forward_with_entity w fwd t fl reply s0
     | None \<Rightarrow> send_message w (plain_request (forwarded_text t) fl reply) s0)"
  have same: "sent s0 = sent s"
    by (simp add: s0_def bump_def)
  have grows: "length (sent s) \<le> length (sent (snd first))"
    and strict: "fst first \<noteq> Inl KeyboardInterrupt \<Longrightarrow> length (sent s) < length (sent (snd first))"
    using forward_with_entity_attempts [where s = s0 and w = w and fwd = fwd and t = t and fl = fl
        and reply = reply]
    by (simp_all add: first_def same send_message_def split: option.splits)
  have whole: "forward_send w fwd t fl reply s =
    (case fst first of
       Inr new_id \<Rightarrow> first
     | Inl e \<Rightarrow>
         if is_Exception e then send_message w (plain_request (forwarded_text t) fl reply) (snd first)
         else first)"
    by (simp add: forward_send_def first_def s0_def split_beta prod_eq_iff
        split: sum.splits option.splits)
  show ?thesis
  proof (cases "fst first")
    case (Inr v)
    then show ?thesis
      using strict by (simp add: whole)
  next
    case (Inl e)
    then show ?thesis
      using assms grows by (auto simp: whole send_message_def is_Exception_iff split: if_splits)
  qed
qed

lemma regular_send_attempts:
  "length (sent s) < length (sent (snd (regular_send w m t fl reply s)))"
  by (simp add: regular_send_def world_defs bump_def split: sum.splits)

lemma send_step_attempts:
  "fst (send_step cfg w m t fl s) \<noteq> Inl KeyboardInterrupt \<Longrightarrow>
     length (sent s) < length (sent (snd (send_step cfg w m t fl s)))"
  using forward_send_attempts [where w = w and t = t and fl = fl and reply = "resolve_reply s m" and s = s]
    regular_send_attempts [where w = w and m = m and t = t and fl = fl and reply = "resolve_reply s m"
      and s = s]
  by (auto simp: send_step_def Let_def split_beta split: option.splits sum.splits)

lemma handle_media_attempts:
  "length (sent s) \<le> length (sent (snd (handle_media w m t s)))"
  "fst (handle_media w m t s) = Inr (Returned v) \<Longrightarrow>
     length (sent s) < length (sent (snd (handle_media w m t s)))"
  by (auto simp: handle_media_def clone_poll_def clone_contact_def world_defs book_defs
      classify_document_def split: option.splits media.splits sum.splits if_splits)

lemma dispatch_attempts:
  assumes "fst (dispatch cfg w s m) \<noteq> Inl KeyboardInterrupt"
  shows "length (sent s) < length (sent (snd (dispatch cfg w s m)))"
proof -
  define t where "t = add_source_link cfg (source_entity s) (msg_id m) (transform_text cfg (msg_text m))"
  obtain r1 s1 where media: "handle_media w m t s = (r1, s1)"
    by (cases "handle_media w m t s")
  have grows: "length (sent s) \<le> length (sent s1)"
    using handle_media_attempts(1) [where s = s and w = w and m = m and t = t] media by simp
  show ?thesis
  proof (cases r1)
    case (Inl e)
    have "e = KeyboardInterrupt"
      using media Inl
      by (auto simp: handle_media_def clone_poll_def clone_contact_def world_defs is_Exception_iff
          split: option.splits media.splits sum.splits if_splits)
    then show ?thesis
      using assms media Inl by (simp add: dispatch_def t_def)
  next
    case (Inr outcome1)
    show ?thesis
    proof (cases outcome1)
      case (Returned v)
      then show ?thesis
        using handle_media_attempts(2) [where s = s and w = w and m = m and t = t and v = v] media Inr
        by (simp add: dispatch_def t_def)
    next
      case (Proceed t' file')
      obtain r2 s2 where step: "send_step cfg w m t' file' s1 = (r2, s2)"
        by (cases "send_step cfg w m t' file' s1")
      have result: "dispatch cfg w s m =
          (case r2 of Inl e \<Rightarrow> (Inl e, s2) | Inr outcome \<Rightarrow> bookkeeping w m file' outcome s2)"
        using media Inr Proceed step by (simp add: dispatch_def t_def)
      have "r2 \<noteq> Inl KeyboardInterrupt"
        using assms result by auto
      then have "length (sent s1) < length (sent s2)"
        using send_step_attempts [where cfg = cfg and w = w and m = m and t = t' and fl = file' and s = s1]
          step by simp
      moreover have "sent (snd (dispatch cfg w s m)) = sent s2"
        unfolding result by (cases r2) simp_all
      ultimately show ?thesis
        using grows by simp
    qed
  qed
qed

text \<open>The first message of an album is dispatched: it is not counted as skipped, its
  album is seen from then on, and unless a call is interrupted it is sent.\<close>

lemma process_message_first_of_album:
  assumes "msg_id m \<notin> processed_messages_ids s" and "album_id m = Some g"
      and "g \<notin> seen_album_ids s"
  shows "skipped (stats (snd (process_message cfg w s m))) = skipped (stats s)"
    and "g \<in> seen_album_ids (snd (process_message cfg w s m))"
    and "fst (process_message cfg w s m) \<noteq> Inl KeyboardInterrupt \<Longrightarrow>
           length (sent s) < length (sent (snd (process_message cfg w s m)))"
proof -
  define s0 where "s0 = s\<lparr>processed_messages_ids := insert (msg_id m) (processed_messages_ids s),
    seen_album_ids := insert g (seen_album_ids s)\<rparr>"
  have body: "process_body cfg w s m = dispatch cfg w s0 m"
    using assms by (simp add: process_body_def s0_def)
  have same: "skipped (stats s0) = skipped (stats s)" "sent s0 = sent s"
    by (simp_all add: s0_def)
  have not_skipped: "skipped (stats (snd (dispatch cfg w s0 m))) = skipped (stats s)"
    using same by simp
  have message: "snd (process_message cfg w s m) =
      (case fst (dispatch cfg w s0 m) of
         Inr r \<Rightarrow> snd (dispatch cfg w s0 m)
       | Inl e \<Rightarrow>
           (case e of
              FloodWaitError seconds \<Rightarrow> sleep seconds (snd (dispatch cfg w s0 m))
            | SlowModeWaitError seconds \<Rightarrow> sleep seconds (snd (dispatch cfg w s0 m))
            | KeyboardInterrupt \<Rightarrow> snd (dispatch cfg w s0 m)
            | _ \<Rightarrow> bump failed_update (snd (dispatch cfg w s0 m))))"
    by (simp add: process_message_eq body split_beta split: sum.splits exn.splits)
  show "skipped (stats (snd (process_message cfg w s m))) = skipped (stats s)"
    using not_skipped by (simp add: message bump_def sleep_def split: sum.splits exn.splits)
  show "g \<in> seen_album_ids (snd (process_message cfg w s m))"
    using process_message_seen [OF assms(1), of cfg w] assms(2) by simp
  show "length (sent s) < length (sent (snd (process_message cfg w s m)))"
    if "fst (process_message cfg w s m) \<noteq> Inl KeyboardInterrupt"
  proof -
    have "fst (dispatch cfg w s0 m) \<noteq> Inl KeyboardInterrupt"
      using that by (auto simp: process_message_eq body split_beta)
    then have "length (sent s0) < length (sent (snd (dispatch cfg w s0 m)))"
      by (rule dispatch_attempts)
    then show ?thesis
      using same by (simp add: message bump_def sleep_def split: sum.splits exn.splits)
  qed
qed

text \<open>
  Claim C5, as stated, fails for the group id 0, which is not \<open>None\<close> and which the
  tests of lines 215 and 220 take for no group: the three messages of
  \<open>zero_album_world\<close> share it, none is skipped and all three are sent.
\<close>

theorem zero_album_counterexample:
  "grouped_id (album_message 1 0) = Some 0
   \<and> grouped_id (album_message 2 0) = Some 0
   \<and> grouped_id (album_message 3 0) = Some 0
   \<and> skipped (stats (snd (start_cloning plain_config zero_album_world new_cloner))) = 0
   \<and> length (sent (snd (start_cloning plain_config zero_album_world new_cloner))) = 3
   \<and> cloned (stats (snd (start_cloning plain_config zero_album_world new_cloner))) = 3"
  by (simp add: eval_defs plain_config_def world_with_def text_message_def album_message_def
      zero_album_world_def Let_def)

text \<open>
  Claim C5, amended. In a run over messages with distinct ids that were not processed
  before, take a message \<open>m\<close> with a group id that is neither \<open>None\<close> nor 0, and let
  \<open>before\<close> be the messages the loop handled before it, in any order. If the album was
  seen, by one of them or earlier, then \<open>m\<close> is skipped: nothing is sent, \<open>skipped\<close> is
  one more, the id is marked, and nothing else changes. Otherwise \<open>m\<close> is the first of
  its album: it is not counted as skipped, the album is seen from then on, and unless a
  call is interrupted at least one send is made for it.
\<close>

theorem album_collapse:
  assumes "distinct (map msg_id (before @ [m]))"
      and "\<forall>x \<in> set (before @ [m]). msg_id x \<notin> processed_messages_ids s"
      and "album_id m = Some g"
      and "clone_loop cfg w n i before s = (None, s1)"
  shows "if g \<in> seen_album_ids s \<or> (\<exists>x \<in> set before. album_id x = Some g)
         then process_message cfg w s1 m =
                (Inr None, bump skipped_update
                   (s1\<lparr>processed_messages_ids := insert (msg_id m) (processed_messages_ids s1)\<rparr>))
         else skipped (stats (snd (process_message cfg w s1 m))) = skipped (stats s1)
            \<and> g \<in> seen_album_ids (snd (process_message cfg w s1 m))
            \<and> (fst (process_message cfg w s1 m) \<noteq> Inl KeyboardInterrupt \<longrightarrow>
                 length (sent s1) < length (sent (snd (process_message cfg w s1 m))))"
proof -
  have d: "distinct (map msg_id before)"
    and f: "\<forall>x \<in> set before. msg_id x \<notin> processed_messages_ids s"
    using assms(1,2) by simp_all
  have n: "fst (clone_loop cfg w n i before s) = None"
    using assms(4) by simp
  have seen: "seen_album_ids s1 = seen_album_ids s \<union> {g. \<exists>x \<in> set before. album_id x = Some g}"
    and marked: "processed_messages_ids s1 = processed_messages_ids s \<union> msg_id ` set before"
    using clone_loop_marks [OF d f n] assms(4) by simp_all
  have "msg_id m \<notin> msg_id ` set before"
    using assms(1) by simp
  moreover have "msg_id m \<notin> processed_messages_ids s"
    using assms(2) by simp
  ultimately have fresh: "msg_id m \<notin> processed_messages_ids s1"
    using marked by simp
  show ?thesis
  proof (cases "g \<in> seen_album_ids s \<or> (\<exists>x \<in> set before. album_id x = Some g)")
    case True
    then have "g \<in> seen_album_ids s1"
      using seen by auto
    then show ?thesis
      using True process_message_skips [OF fresh assms(3), of cfg w] by simp
  next
    case False
    then have "g \<notin> seen_album_ids s1"
      using seen by auto
    then show ?thesis
      using False process_message_first_of_album [OF fresh assms(3), of cfg w] by simp
  qed
qed

theorem album_collapse_witness:
  "distinct (map msg_id ([album_message 1 7, album_message 2 7] @ [album_message 3 7]))
   \<and> processed_messages_ids new_cloner = {}
   \<and> album_id (album_message 3 7) = Some 7
   \<and> album_id (album_message 1 7) = Some 7
   \<and> fst (clone_loop plain_config all_succeed 3 0 [album_message 1 7, album_message 2 7] new_cloner) = None
   \<and> fst (process_message plain_config all_succeed
        (snd (clone_loop plain_config all_succeed 3 0 [album_message 1 7, album_message 2 7] new_cloner))
        (album_message 3 7)) = Inr None
   \<and> skipped (stats (snd (process_message plain_config all_succeed
        (snd (clone_loop plain_config all_succeed 3 0 [album_message 1 7, album_message 2 7] new_cloner))
        (album_message 3 7)))) = 2
   \<and> length (sent (snd (process_message plain_config all_succeed
        (snd (clone_loop plain_config all_succeed 3 0 [album_message 1 7, album_message 2 7] new_cloner))
        (album_message 3 7)))) = 1"
proof -
  let ?before = "[album_message 1 7, album_message 2 7]"
  let ?s1 = "snd (clone_loop plain_config all_succeed 3 0 ?before new_cloner)"
  have h1: "distinct (map msg_id (?before @ [album_message 3 7]))"
    and empty: "processed_messages_ids new_cloner = {}"
    and h3: "album_id (album_message 3 7) = Some 7"
    and first: "album_id (album_message 1 7) = Some 7"
    by (simp_all add: plain_config_def world_with_def text_message_def all_succeed_def
        album_message_def new_cloner_def album_id_def)
  have h2: "\<forall>x \<in> set (?before @ [album_message 3 7]). msg_id x \<notin> processed_messages_ids new_cloner"
    using empty by simp
  have before: "skipped (stats ?s1) = 1" "length (sent ?s1) = 1"
    "fst (clone_loop plain_config all_succeed 3 0 ?before new_cloner) = None"
    by (simp_all add: eval_defs plain_config_def world_with_def text_message_def all_succeed_def
        album_message_def Let_def)
  have h4: "clone_loop plain_config all_succeed 3 0 ?before new_cloner = (None, ?s1)"
    using before(3) by (simp add: prod_eq_iff)
  have seen: "\<exists>x \<in> set ?before. album_id x = Some 7"
    using first by simp
  have "process_message plain_config all_succeed ?s1 (album_message 3 7) =
      (Inr None, bump skipped_update
         (?s1\<lparr>processed_messages_ids := insert (msg_id (album_message 3 7)) (processed_messages_ids ?s1)\<rparr>))"
    using album_collapse [OF h1 h2 h3 h4] seen by simp
  then have "fst (process_message plain_config all_succeed ?s1 (album_message 3 7)) = Inr None"
    "skipped (stats (snd (process_message plain_config all_succeed ?s1 (album_message 3 7)))) = 2"
    "length (sent (snd (process_message plain_config all_succeed ?s1 (album_message 3 7)))) = 1"
    using before(1,2) by (simp_all add: bump_def)
  then show ?thesis
    using h1 empty h3 first before(3) by simp
qed

end
